theory Spec2Isabelle
  imports Complex_Main
begin

section \<open>Python floats\<close>

text \<open>
  \<^verbatim>\<open>dashboard.py\<close> computes with Python floats and pandas \<^verbatim>\<open>float64\<close> columns, both IEEE 754
  binary64 with round-to-nearest, ties-to-even. A finite double is modelled by the rational
  number it denotes; every arithmetic operation computes the exact rational result and rounds
  it with \<open>round_to_double\<close>. The sign of zero is not modelled (\<^verbatim>\<open>-0.0\<close> and \<^verbatim>\<open>0.0\<close> are the
  same value, as they are for Python's \<^verbatim>\<open>==\<close>), and there is one NaN.
\<close>

definition round_half_even :: "rat \<Rightarrow> int" where
  "round_half_even x =
     (let f = \<lfloor>x\<rfloor>; r = x - of_int f
      in if r < 1 / 2 then f else if 1 / 2 < r then f + 1 else if even f then f else f + 1)"

text \<open>Python's \<^verbatim>\<open>int.bit_length\<close> of a non-negative int.\<close>

function bit_length :: "int \<Rightarrow> nat" where
  "bit_length n = (if n \<le> 0 then 0 else Suc (bit_length (n div 2)))"
  by pat_completeness auto
termination
  by (relation "measure nat") auto

declare bit_length.simps [simp del]

text \<open>
  \<open>ilog2 x\<close> is the binary exponent of a positive rational:
  \<open>2 powi ilog2 x \<le> x < 2 powi (ilog2 x + 1)\<close> (lemma \<open>ilog2_bounds\<close> below).
\<close>

definition ilog2 :: "rat \<Rightarrow> int" where
  "ilog2 x = (if 1 \<le> x then int (bit_length \<lfloor>x\<rfloor>) - 1
              else - int (bit_length (\<lceil>1 / x\<rceil> - 1)))"

text \<open>
  Rounding to 53 significant bits: a double is \<open>m * 2 powi e\<close> with \<open>\<bar>m\<bar> < 2 ^ 53\<close>, and the
  exponent \<open>e\<close> of the doubles around \<open>x\<close> is \<open>ilog2 \<bar>x\<bar> - 52\<close>. Below \<open>2 powi (- 1022)\<close> the
  spacing stays \<open>2 powi (- 1074)\<close> (subnormal numbers). The exponent is not bounded above here:
  \<open>to_double\<close> turns a result beyond the largest finite double into an infinity.
\<close>

definition double_exponent :: "rat \<Rightarrow> int" where
  "double_exponent x = max (ilog2 \<bar>x\<bar> - 52) (- 1074)"

definition round_to_double :: "rat \<Rightarrow> rat" where
  "round_to_double x =
     (if x = 0 then 0
      else let e = double_exponent x
           in of_int (round_half_even (x / 2 powi e)) * 2 powi e)"

definition max_double :: rat where
  "max_double = (2 ^ 53 - 1) * 2 ^ 971"

datatype pyfloat = Fin rat | PInf | NInf | NaN

definition to_double :: "rat \<Rightarrow> pyfloat" where
  "to_double x =
     (let y = round_to_double x
      in if max_double < y then PInf else if y < - max_double then NInf else Fin y)"

text \<open>A well-formed float: a non-finite value, or a rational that is a double.\<close>

definition is_double :: "pyfloat \<Rightarrow> bool" where
  "is_double a = (case a of Fin x \<Rightarrow> round_to_double x = x \<and> \<bar>x\<bar> \<le> max_double | _ \<Rightarrow> True)"

text \<open>\<^verbatim>\<open>math.isfinite\<close>.\<close>

fun is_finite :: "pyfloat \<Rightarrow> bool" where
  "is_finite (Fin x) = True"
| "is_finite _ = False"

text \<open>A decimal literal of the source, such as \<^verbatim>\<open>873.1\<close>, denotes the double nearest to it.\<close>

definition float_lit :: "rat \<Rightarrow> pyfloat" where
  "float_lit q = to_double q"

text \<open>\<^verbatim>\<open>float(n)\<close>, and the conversion of an \<^verbatim>\<open>int64\<close> cell or an int operand to a double.\<close>

definition int_to_float :: "int \<Rightarrow> pyfloat" where
  "int_to_float n = to_double (of_int n)"

fun float_neg :: "pyfloat \<Rightarrow> pyfloat" where
  "float_neg (Fin a) = Fin (- a)"
| "float_neg PInf = NInf"
| "float_neg NInf = PInf"
| "float_neg NaN = NaN"

fun float_add :: "pyfloat \<Rightarrow> pyfloat \<Rightarrow> pyfloat" where
  "float_add (Fin a) (Fin b) = to_double (a + b)"
| "float_add NaN _ = NaN"
| "float_add _ NaN = NaN"
| "float_add PInf NInf = NaN"
| "float_add NInf PInf = NaN"
| "float_add PInf _ = PInf"
| "float_add NInf _ = NInf"
| "float_add _ PInf = PInf"
| "float_add _ NInf = NInf"

definition float_sub :: "pyfloat \<Rightarrow> pyfloat \<Rightarrow> pyfloat" where
  "float_sub a b = float_add a (float_neg b)"

text \<open>The sign of a product or quotient with an infinite operand.\<close>

definition signed_inf :: "bool \<Rightarrow> pyfloat" where
  "signed_inf positive = (if positive then PInf else NInf)"

fun float_mul :: "pyfloat \<Rightarrow> pyfloat \<Rightarrow> pyfloat" where
  "float_mul (Fin a) (Fin b) = to_double (a * b)"
| "float_mul NaN _ = NaN"
| "float_mul _ NaN = NaN"
| "float_mul (Fin a) PInf = (if a = 0 then NaN else signed_inf (0 < a))"
| "float_mul (Fin a) NInf = (if a = 0 then NaN else signed_inf (a < 0))"
| "float_mul PInf (Fin b) = (if b = 0 then NaN else signed_inf (0 < b))"
| "float_mul NInf (Fin b) = (if b = 0 then NaN else signed_inf (b < 0))"
| "float_mul PInf PInf = PInf"
| "float_mul PInf NInf = NInf"
| "float_mul NInf PInf = NInf"
| "float_mul NInf NInf = PInf"

text \<open>
  IEEE division, as numpy's \<^verbatim>\<open>true_divide\<close> performs it: a zero divisor gives an infinity or
  NaN and raises nothing. (Python's own \<^verbatim>\<open>/\<close> raises \<^verbatim>\<open>ZeroDivisionError\<close> on a zero divisor;
  the only Python-level divisions of the source have the non-zero literal divisors
  \<^verbatim>\<open>100.0\<close> and \<^verbatim>\<open>CAN_ACCREDITED_FACILITIES_2023_24\<close>.)
\<close>

fun float_div :: "pyfloat \<Rightarrow> pyfloat \<Rightarrow> pyfloat" where
  "float_div (Fin a) (Fin b) =
     (if b = 0 then (if a = 0 then NaN else signed_inf (0 < a)) else to_double (a / b))"
| "float_div NaN _ = NaN"
| "float_div _ NaN = NaN"
| "float_div (Fin a) PInf = Fin 0"
| "float_div (Fin a) NInf = Fin 0"
| "float_div PInf (Fin b) = signed_inf (0 \<le> b)"
| "float_div NInf (Fin b) = signed_inf (b < 0)"
| "float_div PInf PInf = NaN"
| "float_div PInf NInf = NaN"
| "float_div NInf PInf = NaN"
| "float_div NInf NInf = NaN"

text \<open>Comparison \<^verbatim>\<open><\<close> of floats: every comparison with NaN is false.\<close>

fun float_lt :: "pyfloat \<Rightarrow> pyfloat \<Rightarrow> bool" where
  "float_lt (Fin a) (Fin b) = (a < b)"
| "float_lt NaN _ = False"
| "float_lt _ NaN = False"
| "float_lt NInf NInf = False"
| "float_lt NInf _ = True"
| "float_lt _ NInf = False"
| "float_lt PInf _ = False"
| "float_lt _ PInf = True"

text \<open>
  A Python number is an int or a float: \<^verbatim>\<open>max(vets - solo_vets_est, 0)\<close> returns either the
  float difference or the int \<^verbatim>\<open>0\<close>.
\<close>

datatype pynum = PyInt int | PyFloat pyfloat

text \<open>Python compares an int with a float by value, without rounding the int.\<close>

fun num_val :: "pynum \<Rightarrow> pyfloat" where
  "num_val (PyInt i) = Fin (of_int i)"
| "num_val (PyFloat x) = x"

definition num_gt :: "pynum \<Rightarrow> pynum \<Rightarrow> bool" where
  "num_gt a b = float_lt (num_val b) (num_val a)"

text \<open>\<^verbatim>\<open>max(a, b)\<close> of two arguments keeps the first unless the second is greater.\<close>

definition py_max :: "pynum \<Rightarrow> pynum \<Rightarrow> pynum" where
  "py_max a b = (if num_gt b a then b else a)"

fun num_to_float :: "pynum \<Rightarrow> pyfloat" where
  "num_to_float (PyInt i) = int_to_float i"
| "num_to_float (PyFloat x) = x"

text \<open>
  numpy's \<^verbatim>\<open>rint\<close> and \<^verbatim>\<open>round(decimals)\<close>, which \<^verbatim>\<open>Series.round\<close> applies to a float64 column:
  multiply by \<^verbatim>\<open>10 ** decimals\<close>, round to the nearest integer (ties to even), divide again,
  each step in double arithmetic.
\<close>

fun float_rint :: "pyfloat \<Rightarrow> pyfloat" where
  "float_rint (Fin x) = to_double (of_int (round_half_even x))"
| "float_rint x = x"

definition np_round :: "nat \<Rightarrow> pyfloat \<Rightarrow> pyfloat" where
  "np_round decimals x =
     float_div (float_rint (float_mul x (int_to_float (10 ^ decimals)))) (int_to_float (10 ^ decimals))"

text \<open>
  Python's built-in \<^verbatim>\<open>round(x, ndigits)\<close> on a float: the exact value of \<open>x\<close> rounded to
  \<open>ndigits\<close> decimals (ties to even), then the double nearest to that decimal.
\<close>

fun py_round :: "pyfloat \<Rightarrow> nat \<Rightarrow> pyfloat" where
  "py_round (Fin x) ndigits = to_double (of_int (round_half_even (x * 10 ^ ndigits)) / 10 ^ ndigits)"
| "py_round x ndigits = x"

section \<open>String formatting\<close>

datatype error = IndexError | ValueError | OverflowError | ZeroDivisionError

text \<open>The decimal digits of a non-negative int, as \<^verbatim>\<open>str\<close> prints them.\<close>

function digits :: "int \<Rightarrow> string" where
  "digits n = (if n < 10 then [''0123456789'' ! nat n]
               else digits (n div 10) @ [''0123456789'' ! nat (n mod 10)])"
  by pat_completeness auto
termination
  by (relation "measure nat") auto

declare digits.simps [simp del]

text \<open>The \<^verbatim>\<open>,\<close> option of a format spec: a comma before every group of three digits.\<close>

fun group3 :: "string \<Rightarrow> string" where
  "group3 (a # b # c # d # ds) = a # b # c # CHR '','' # group3 (d # ds)"
| "group3 ds = ds"

definition grouped :: "string \<Rightarrow> string" where
  "grouped ds = rev (group3 (rev ds))"

text \<open>\<^verbatim>\<open>f"{n:,}"\<close> for an int.\<close>

definition fmt_int_grouped :: "int \<Rightarrow> string" where
  "fmt_int_grouped n = (if n < 0 then ''-'' else []) @ grouped (digits \<bar>n\<bar>)"

text \<open>\<^verbatim>\<open>f"{n}"\<close> for an int.\<close>

definition fmt_int :: "int \<Rightarrow> string" where
  "fmt_int n = (if n < 0 then ''-'' else []) @ digits \<bar>n\<bar>"

definition zero_pad :: "nat \<Rightarrow> string \<Rightarrow> string" where
  "zero_pad w ds = replicate (w - length ds) CHR ''0'' @ ds"

text \<open>
  \<^verbatim>\<open>f"{x:.<prec>f}"\<close> and \<^verbatim>\<open>f"{x:,.<prec>f}"\<close>: the exact value of the double, correctly rounded
  to \<open>prec\<close> decimals (ties to even).
\<close>

fun fmt_fixed :: "bool \<Rightarrow> nat \<Rightarrow> pyfloat \<Rightarrow> string" where
  "fmt_fixed comma prec (Fin x) =
     (let n = round_half_even (\<bar>x\<bar> * 10 ^ prec);
          ip = digits (n div 10 ^ prec);
          fp = zero_pad prec (digits (n mod 10 ^ prec))
      in (if x < 0 then ''-'' else []) @ (if comma then grouped ip else ip)
         @ (if prec = 0 then [] else CHR ''.'' # fp))"
| "fmt_fixed comma prec PInf = ''inf''"
| "fmt_fixed comma prec NInf = ''-inf''"
| "fmt_fixed comma prec NaN = ''nan''"

text \<open>A float format spec applied to an int converts the int to a float first.\<close>

definition fmt_num_fixed :: "bool \<Rightarrow> nat \<Rightarrow> pynum \<Rightarrow> string" where
  "fmt_num_fixed comma prec v = fmt_fixed comma prec (num_to_float v)"

text \<open>\<^verbatim>\<open>.replace(",", " ")\<close>.\<close>

definition replace_comma :: "string \<Rightarrow> string" where
  "replace_comma s = map (\<lambda>c. if c = CHR '','' then CHR '' '' else c) s"

text \<open>\<^verbatim>\<open>int(x)\<close> of a float truncates towards zero and raises on a non-finite value.\<close>

fun int_of_float :: "pyfloat \<Rightarrow> error + int" where
  "int_of_float (Fin x) = Inr (if 0 \<le> x then \<lfloor>x\<rfloor> else \<lceil>x\<rceil>)"
| "int_of_float NaN = Inl ValueError"
| "int_of_float _ = Inl OverflowError"

section \<open>The data of \<^verbatim>\<open>dashboard.py\<close>\<close>

text \<open>
  Strings are lists of code points. The accented letters of the keys are below 256 and are
  written by their code: \<open>CHR 0xE9\<close> is e-acute, \<open>CHR 0xC9\<close> E-acute, \<open>CHR 0xCE\<close>
  I-circumflex.
\<close>

definition CAN_REGISTERED_VETS_2024 :: int where
  "CAN_REGISTERED_VETS_2024 = 16317"

definition CAN_ACTIVE_VETS_2023_24 :: int where
  "CAN_ACTIVE_VETS_2023_24 = 15278"

definition CAN_ACCREDITED_FACILITIES_2023_24 :: int where
  "CAN_ACCREDITED_FACILITIES_2023_24 = 4328"

definition CAN_OUTPUT_MCAD :: pyfloat where
  "CAN_OUTPUT_MCAD = float_lit 16946.8"

definition CAN_GDP_MCAD :: pyfloat where
  "CAN_GDP_MCAD = float_lit 9549.3"

definition CAN_EMPLOYMENT_FTE :: int where
  "CAN_EMPLOYMENT_FTE = 81920"

definition CAN_TAX_FED_MCAD :: pyfloat where
  "CAN_TAX_FED_MCAD = float_lit 873.1"

definition CAN_TAX_PROV_MCAD :: pyfloat where
  "CAN_TAX_PROV_MCAD = float_lit 797.3"

definition CAN_TAX_MUNI_MCAD :: pyfloat where
  "CAN_TAX_MUNI_MCAD = float_lit 158.2"

definition Quebec_QC :: string where
  "Quebec_QC = ''Qu'' @ [CHR 0xE9] @ ''bec (QC)''"

text \<open>A dict literal is the list of its items in insertion order; its keys are distinct.\<close>

definition vets_active_2023_24 :: "(string \<times> int) list" where
  "vets_active_2023_24 =
     [(''Ontario (ON)'', 5386),
      (Quebec_QC, 3212),
      (''Alberta (AB)'', 2099),
      (''Colombie-Britannique (BC)'', 2141),
      (''Saskatchewan (SK)'', 724),
      (''Nouvelle-'' @ [CHR 0xC9] @ ''cosse (NS)'', 495),
      (''Manitoba (MB)'', 458),
      (''Nouveau-Brunswick (NB)'', 167),
      ([CHR 0xCE] @ ''le-du-Prince-'' @ [CHR 0xC9] @ ''douard (PE)'', 238),
      (''Terre-Neuve-et-Labrador (NL)'', 158),
      (''Yukon (YK)'', 34),
      (''Territoires du Nord-Ouest (NT)'', 4)]"

definition facilities_2023_24 :: "(string \<times> int) list" where
  "facilities_2023_24 =
     [(''Ontario (ON)'', 1760),
      (Quebec_QC, 942),
      (''Alberta (AB)'', 608),
      (''Colombie-Britannique (BC)'', 688),
      (''Saskatchewan (SK)'', 135),
      (''Nouvelle-'' @ [CHR 0xC9] @ ''cosse (NS)'', 155),
      (''Manitoba (MB)'', 152),
      (''Nouveau-Brunswick (NB)'', 92),
      ([CHR 0xCE] @ ''le-du-Prince-'' @ [CHR 0xC9] @ ''douard (PE)'', 25),
      (''Terre-Neuve-et-Labrador (NL)'', 31),
      (''Yukon (YK)'', 14),
      (''Territoires du Nord-Ouest (NT)'', 4)]"

text \<open>
  A row of \<^verbatim>\<open>df_ca\<close>. The fields stand for the columns \<^verbatim>\<open>Juridiction\<close>,
  \<^verbatim>\<open>Veterinaires actifs (2023-24)\<close>, \<^verbatim>\<open>Etablissements accredites (2023-24)\<close> and the derived
  \<^verbatim>\<open>Ratio (vetos / etablissement)\<close> (column names written here without their accents).
\<close>

record ca_row =
  Juridiction :: string
  Veterinaires_actifs :: int
  Etablissements_accredites :: pynum
  Ratio :: pyfloat

text \<open>
  \<^verbatim>\<open>left.merge(right, on="Juridiction", how="left")\<close> for a right table with distinct keys: the
  rows of the left table in their order, each with the right value of its key. When every key
  is found the new column keeps its \<^verbatim>\<open>int64\<close> values; otherwise it becomes a \<^verbatim>\<open>float64\<close> column
  with NaN for the missing keys.
\<close>

definition merge_left :: "(string \<times> int) list \<Rightarrow> (string \<times> int) list \<Rightarrow> (string \<times> int \<times> pynum) list" where
  "merge_left left right =
     (let all_found = list_all (\<lambda>(k, v). map_of right k \<noteq> None) left
      in map (\<lambda>(k, v).
           (k, v, case map_of right k of
                    None \<Rightarrow> PyFloat NaN
                  | Some f \<Rightarrow> if all_found then PyInt f else PyFloat (int_to_float f))) left)"

text \<open>
  Lines 87 to 98: the merged table, and the ratio column, the elementwise \<^verbatim>\<open>float64\<close> quotient
  of the two count columns.
\<close>

definition build_df_ca :: "ca_row list" where
  "build_df_ca =
     map (\<lambda>(k, v, f).
           \<lparr>Juridiction = k, Veterinaires_actifs = v, Etablissements_accredites = f,
            Ratio = float_div (int_to_float v) (num_to_float f)\<rparr>)
         (merge_left vets_active_2023_24 facilities_2023_24)"

definition QC_OMVQ_MEMBERS_TOTAL :: int where
  "QC_OMVQ_MEMBERS_TOTAL = 2804"

definition QC_OMVQ_ACTIVE_STATUS_N :: int where
  "QC_OMVQ_ACTIVE_STATUS_N = 2381"

definition QC_OMVQ_FEMALE_N :: int where
  "QC_OMVQ_FEMALE_N = 2025"

definition QC_OMVQ_MALE_N :: int where
  "QC_OMVQ_MALE_N = 779"

text \<open>A row of \<^verbatim>\<open>qc_practice_main\<close>: \<^verbatim>\<open>Pratique principale\<close>, \<^verbatim>\<open>Effectif\<close>, \<^verbatim>\<open>Part (%)\<close>.\<close>

record qc_row =
  Pratique_principale :: string
  Effectif :: int
  Part :: pyfloat

definition Sante_publique :: string where
  "Sante_publique = ''Sant'' @ [CHR 0xE9] @ '' publique''"

definition qc_practice_effectifs :: "(string \<times> int) list" where
  "qc_practice_effectifs =
     [(''Animaux de compagnie'', 1674),
      (''Grands animaux'', 305),
      (Sante_publique, 172),
      (''Services-conseils'', 149),
      ([CHR 0xC9] @ ''quins'', 94),
      (''Enseignement'', 95),
      (''Administration'', 76),
      (''Petits ruminants'', 0),
      (''Grandes populations animales'', 42),
      (''Faune et zoos'', 15),
      (''Animaux de bassecour'', 1)]"

text \<open>Line 123: \<^verbatim>\<open>(Effectif / QC_OMVQ_MEMBERS_TOTAL * 100).round(1)\<close>.\<close>

definition part_pct :: "int \<Rightarrow> pyfloat" where
  "part_pct effectif =
     np_round 1 (float_mul (float_div (int_to_float effectif) (int_to_float QC_OMVQ_MEMBERS_TOTAL))
                           (int_to_float 100))"

definition build_qc_practice_main :: "qc_row list" where
  "build_qc_practice_main =
     map (\<lambda>(k, n). \<lparr>Pratique_principale = k, Effectif = n, Part = part_pct n\<rparr>) qc_practice_effectifs"

definition QC_COMPANION_MONTEREGIE_N :: int where
  "QC_COMPANION_MONTEREGIE_N = 405"

definition QC_COMPANION_MONTREAL_N :: int where
  "QC_COMPANION_MONTREAL_N = 352"

definition QC_COMPANION_ABITIBI_N :: int where
  "QC_COMPANION_ABITIBI_N = 20"

definition QC_COMPANION_GASPESIE_N :: int where
  "QC_COMPANION_GASPESIE_N = 10"

definition QC_COMPANION_COTE_NORD_N :: int where
  "QC_COMPANION_COTE_NORD_N = 9"

definition QC_COMPANION_NORD_DU_QC_N :: int where
  "QC_COMPANION_NORD_DU_QC_N = 2"

text \<open>
  The two data frames are the only mutable objects the panels share. They are threaded through
  the panels as a store; \<open>module_state\<close> is the store after the module-level code (lines 1 to
  131) has run.
\<close>

record store =
  df_ca :: "ca_row list"
  qc_practice_main :: "qc_row list"

definition module_state :: store where
  "module_state = \<lparr>df_ca = build_df_ca, qc_practice_main = build_qc_practice_main\<rparr>"

section \<open>Sorting\<close>

text \<open>
  \<^verbatim>\<open>DataFrame.sort_values(by, ascending)\<close> with the default \<^verbatim>\<open>inplace=False\<close> returns a new table
  and leaves its receiver as it is. NaN keys go last; the other rows are sorted on their key,
  for a descending sort by sorting the reversed table and reversing the result, so that rows
  with equal keys keep their order.
\<close>

fun insert_by :: "('r \<Rightarrow> pyfloat) \<Rightarrow> 'r \<Rightarrow> 'r list \<Rightarrow> 'r list" where
  "insert_by key x [] = [x]"
| "insert_by key x (y # ys) =
     (if float_lt (key y) (key x) then y # insert_by key x ys else x # y # ys)"

definition sort_by :: "('r \<Rightarrow> pyfloat) \<Rightarrow> 'r list \<Rightarrow> 'r list" where
  "sort_by key xs = foldr (insert_by key) xs []"

definition sort_values :: "('r \<Rightarrow> pyfloat) \<Rightarrow> bool \<Rightarrow> 'r list \<Rightarrow> 'r list" where
  "sort_values key ascending df =
     (let rest = filter (\<lambda>r. key r \<noteq> NaN) df;
          nans = filter (\<lambda>r. key r = NaN) df
      in (if ascending then sort_by key rest else rev (sort_by key (rev rest))) @ nans)"

text \<open>The sort keys: the value of an int cell is the int itself.\<close>

definition by_vets :: "ca_row \<Rightarrow> pyfloat" where
  "by_vets r = num_val (PyInt (Veterinaires_actifs r))"

definition by_facilities :: "ca_row \<Rightarrow> pyfloat" where
  "by_facilities r = num_val (Etablissements_accredites r)"

definition by_effectif :: "qc_row \<Rightarrow> pyfloat" where
  "by_effectif r = num_val (PyInt (Effectif r))"

section \<open>The scenario estimator\<close>

text \<open>
  Lines 295 to 300, as a function of the three numbers they read: \<^verbatim>\<open>vets\<close>, \<^verbatim>\<open>facs\<close> and the
  slider value \<^verbatim>\<open>solo_share\<close> (which \<^verbatim>\<open>solo_share / 100.0\<close> converts to a float).
\<close>

record scenario =
  solo_facilities :: pyfloat
  multi_facilities :: pyfloat
  solo_vets_est :: pyfloat
  multi_vets_est :: pynum

definition estimate :: "pyfloat \<Rightarrow> pyfloat \<Rightarrow> pyfloat \<Rightarrow> scenario" where
  "estimate vets facs solo_share =
     (let solo_facilities = float_mul facs (float_div solo_share (float_lit 100));
          multi_facilities = float_sub facs solo_facilities;
          solo_vets_est = float_mul solo_facilities (float_lit 1);
          multi_vets_est = py_max (PyFloat (float_sub vets solo_vets_est)) (PyInt 0)
      in \<lparr>solo_facilities = solo_facilities, multi_facilities = multi_facilities,
          solo_vets_est = solo_vets_est, multi_vets_est = multi_vets_est\<rparr>)"

text \<open>
  The estimator as section 4.2 of the specification words it, over the exact values: the
  product \<open>facilities * (solo_share_pct / 100)\<close> rounded as the double operations round it, the same
  number for the solo vets, and the larger of the rounded difference and zero.
\<close>

definition spec_solo_facilities :: "rat \<Rightarrow> rat \<Rightarrow> rat" where
  "spec_solo_facilities facilities solo_share_pct =
     round_to_double (facilities * round_to_double (solo_share_pct / 100))"

definition spec_multi_vets :: "rat \<Rightarrow> rat \<Rightarrow> rat" where
  "spec_multi_vets active_vets solo_vets = max (round_to_double (active_vets - solo_vets)) 0"

text \<open>The values the slider offers: \<^verbatim>\<open>min_value=0, max_value=80, step=5\<close>.\<close>

definition slider_values :: "int list" where
  "slider_values = map (\<lambda>k. 5 * k) [0..16]"

section \<open>The panels\<close>

text \<open>
  What a run of the script shows, in order. Only the elements that carry data are modelled
  (titles, captions and the fixed text of the markdown blocks are left out): a metric is its
  value string, a markdown block the list of the values interpolated into it, a bar chart the
  \<open>(x, y)\<close> pairs of the table it is given, in the table's order.
\<close>

datatype element =
    Metric string
  | Markdown "string list"
  | Plotly_chart "(string \<times> pyfloat) list"
  | Dataframe_ca "ca_row list"
  | Dataframe_qc "qc_row list"

type_synonym panel = "store \<Rightarrow> (error + element list) \<times> store"

text \<open>Python's \<^verbatim>\<open>a / b\<close> on two ints: the correctly rounded quotient.\<close>

definition int_truediv :: "int \<Rightarrow> int \<Rightarrow> error + pyfloat" where
  "int_truediv a b = (if b = 0 then Inl ZeroDivisionError else Inr (to_double (of_int a / of_int b)))"

definition metric_int :: "int \<Rightarrow> element" where
  "metric_int n = Metric (replace_comma (fmt_int_grouped n))"

text \<open>Line 160, the total of the three tax components.\<close>

definition tax_total_metric :: element where
  "tax_total_metric =
     Metric (replace_comma (fmt_fixed True 1
       (float_add (float_add CAN_TAX_FED_MCAD CAN_TAX_PROV_MCAD) CAN_TAX_MUNI_MCAD)))"

definition bar_ca :: "(ca_row \<Rightarrow> pyfloat) \<Rightarrow> ca_row list \<Rightarrow> element" where
  "bar_ca y df = Plotly_chart (map (\<lambda>r. (Juridiction r, y r)) df)"

definition tab_ca :: panel where
  "tab_ca s =
     (case int_truediv CAN_ACTIVE_VETS_2023_24 CAN_ACCREDITED_FACILITIES_2023_24 of
        Inl e \<Rightarrow> (Inl e, s)
      | Inr ratio \<Rightarrow>
          (Inr [metric_int CAN_REGISTERED_VETS_2024,
                metric_int CAN_ACTIVE_VETS_2023_24,
                metric_int CAN_ACCREDITED_FACILITIES_2023_24,
                Metric (fmt_fixed False 2 ratio),
                Metric (replace_comma (fmt_fixed True 1 CAN_OUTPUT_MCAD)),
                Metric (replace_comma (fmt_fixed True 1 CAN_GDP_MCAD)),
                metric_int CAN_EMPLOYMENT_FTE,
                tax_total_metric,
                bar_ca by_vets (sort_values by_vets False (df_ca s)),
                bar_ca by_facilities (sort_values by_facilities False (df_ca s)),
                bar_ca Ratio (sort_values Ratio False (df_ca s)),
                Dataframe_ca (sort_values by_vets False (df_ca s))], s))"

text \<open>
  \<^verbatim>\<open>qc_practice_main.loc[qc_practice_main['Pratique principale'] == label, 'Effectif'].iloc[0]\<close>:
  the first matching row, \<^verbatim>\<open>IndexError\<close> when there is none.
\<close>

definition effectif_of :: "qc_row list \<Rightarrow> string \<Rightarrow> error + int" where
  "effectif_of df label =
     (case filter (\<lambda>r. Pratique_principale r = label) df of
        [] \<Rightarrow> Inl IndexError
      | r # _ \<Rightarrow> Inr (Effectif r))"

definition tab_qc :: panel where
  "tab_qc s =
     (case effectif_of (qc_practice_main s) ''Animaux de compagnie'' of
        Inl e \<Rightarrow> (Inl e, s)
      | Inr n1 \<Rightarrow>
     (case effectif_of (qc_practice_main s) ''Grands animaux'' of
        Inl e \<Rightarrow> (Inl e, s)
      | Inr n2 \<Rightarrow>
     (case effectif_of (qc_practice_main s) Sante_publique of
        Inl e \<Rightarrow> (Inl e, s)
      | Inr n3 \<Rightarrow>
          (Inr [metric_int QC_OMVQ_MEMBERS_TOTAL,
                metric_int QC_OMVQ_ACTIVE_STATUS_N,
                metric_int QC_OMVQ_FEMALE_N,
                metric_int QC_OMVQ_MALE_N,
                Plotly_chart (map (\<lambda>r. (Pratique_principale r, by_effectif r))
                                  (sort_values by_effectif False (qc_practice_main s))),
                Markdown [fmt_int n1, fmt_int n2, fmt_int n3],
                Dataframe_qc (sort_values by_effectif False (qc_practice_main s)),
                Markdown [fmt_int QC_COMPANION_MONTEREGIE_N, fmt_int QC_COMPANION_MONTREAL_N,
                          fmt_int QC_COMPANION_ABITIBI_N, fmt_int QC_COMPANION_GASPESIE_N,
                          fmt_int QC_COMPANION_COTE_NORD_N, fmt_int QC_COMPANION_NORD_DU_QC_N]],
           s))))"

text \<open>
  Lines 282 to 305. \<open>juris\<close> is what the select box returns and \<open>solo_share\<close> what the slider
  returns. The default index of the select box is \<^verbatim>\<open>tolist().index(...)\<close> of the Quebec key, a
  \<^verbatim>\<open>ValueError\<close> when the key is absent; \<^verbatim>\<open>df_ca[df_ca["Juridiction"] == juris].iloc[0]\<close> is an
  \<^verbatim>\<open>IndexError\<close> when no row matches.
\<close>

definition scenario_metrics :: "scenario \<Rightarrow> element list" where
  "scenario_metrics sc =
     [Metric (fmt_fixed False 0 (solo_facilities sc)),
      Metric (fmt_fixed False 0 (solo_vets_est sc)),
      Metric (fmt_num_fixed False 0 (multi_vets_est sc))]"

definition tab_scen :: "string \<Rightarrow> int \<Rightarrow> panel" where
  "tab_scen juris solo_share s =
     (if Quebec_QC \<notin> set (map Juridiction (df_ca s)) then (Inl ValueError, s)
      else case filter (\<lambda>r. Juridiction r = juris) (df_ca s) of
        [] \<Rightarrow> (Inl IndexError, s)
      | row # _ \<Rightarrow>
          (let vets = int_to_float (Veterinaires_actifs row);
               facs = num_to_float (Etablissements_accredites row);
               ratio = Ratio row
           in case int_of_float vets of
                Inl e \<Rightarrow> (Inl e, s)
              | Inr ivets \<Rightarrow>
             (case int_of_float facs of
                Inl e \<Rightarrow> (Inl e, s)
              | Inr ifacs \<Rightarrow>
                  (Inr ([metric_int ivets, metric_int ifacs, Metric (fmt_fixed False 2 ratio)]
                        @ scenario_metrics (estimate vets facs (int_to_float solo_share))), s))))"

text \<open>The sources panel shows fixed text only.\<close>

definition tab_sources :: panel where
  "tab_sources s = (Inr [], s)"

text \<open>An exception ends the run; otherwise the next panel starts from the store the last one left.\<close>

definition then_panel :: "panel \<Rightarrow> panel \<Rightarrow> panel" where
  "then_panel p q s =
     (case p s of
        (Inl e, s') \<Rightarrow> (Inl e, s')
      | (Inr a, s') \<Rightarrow>
          (case q s' of
             (Inl e, s'') \<Rightarrow> (Inl e, s'')
           | (Inr b, s'') \<Rightarrow> (Inr (a @ b), s'')))"

definition render :: "string \<Rightarrow> int \<Rightarrow> panel" where
  "render juris solo_share =
     then_panel tab_ca (then_panel tab_qc (then_panel (tab_scen juris solo_share) tab_sources))"

section \<open>Properties of the rounding\<close>

subsection \<open>Binary exponent\<close>

lemma bit_length_pos: "0 < n \<Longrightarrow> bit_length n = Suc (bit_length (n div 2))"
  by (subst bit_length.simps) simp

lemma bit_length_nonpos: "n \<le> 0 \<Longrightarrow> bit_length n = 0"
  by (subst bit_length.simps) simp

lemma bit_length_bounds: "0 < n \<Longrightarrow> 2 ^ (bit_length n - 1) \<le> n \<and> n < 2 ^ bit_length n"
proof (induction n rule: bit_length.induct)
  case (1 n)
  show ?case
  proof (cases "n = 1")
    case True
    then show ?thesis by (simp add: bit_length_pos bit_length_nonpos)
  next
    case False
    with 1(2) have h: "0 < n div 2" by simp
    with 1 have ih: "2 ^ (bit_length (n div 2) - 1) \<le> n div 2" "n div 2 < 2 ^ bit_length (n div 2)"
      by auto
    have bl: "bit_length n = Suc (bit_length (n div 2))" using 1(2) by (rule bit_length_pos)
    obtain k where k: "bit_length (n div 2) = Suc k" using bit_length_pos[OF h] by blast
    have "(2::int) ^ (bit_length n - 1) = 2 * 2 ^ (bit_length (n div 2) - 1)"
      using bl k by simp
    also have "\<dots> \<le> 2 * (n div 2)" using ih(1) by simp
    also have "\<dots> \<le> n" by simp
    finally have a: "2 ^ (bit_length n - 1) \<le> n" .
    have "n < 2 * (n div 2) + 2" by presburger
    also have "\<dots> \<le> 2 * 2 ^ bit_length (n div 2)" using ih(2) by simp
    finally have b: "n < 2 ^ bit_length n" using bl by simp
    from a b show ?thesis by simp
  qed
qed

lemma ilog2_bounds:
  assumes "0 < x"
  shows "2 powi ilog2 x \<le> x" and "x < 2 powi (ilog2 x + 1)"
proof -
  have "2 powi ilog2 x \<le> x \<and> x < 2 powi (ilog2 x + 1)"
  proof (cases "1 \<le> x")
    case True
    define n where "n = \<lfloor>x\<rfloor>"
    have n: "0 < n" using True by (simp add: n_def)
    obtain k where k: "bit_length n = Suc k" using bit_length_pos[OF n] by blast
    have il: "ilog2 x = int k" using True k by (simp add: ilog2_def n_def)
    from bit_length_bounds[OF n] k have b: "2 ^ k \<le> n" "n < 2 ^ Suc k" by simp_all
    have "rat_of_int (2 ^ k) \<le> of_int n" using b(1) by (simp only: of_int_le_iff)
    also have "\<dots> \<le> x" by (simp add: n_def)
    finally have lo: "2 ^ k \<le> x" by simp
    have "n + 1 \<le> 2 ^ Suc k" using b(2) by simp
    then have "rat_of_int (n + 1) \<le> of_int (2 ^ Suc k)" by (simp only: of_int_le_iff)
    moreover have "x < of_int (n + 1)" unfolding n_def by linarith
    ultimately have hi: "x < 2 ^ Suc k" by simp
    have "2 powi (int k + 1) = (2::rat) ^ Suc k"
      by (simp add: power_int_add)
    with lo hi il show ?thesis by simp
  next
    case False
    define y where "y = 1 / x"
    define n where "n = \<lceil>y\<rceil> - 1"
    have x1: "x < 1" using False by simp
    have y1: "1 < y" using assms x1 by (simp add: y_def)
    have n: "0 < n" using y1 unfolding n_def by linarith
    obtain k where k: "bit_length n = Suc k" using bit_length_pos[OF n] by blast
    have il: "ilog2 x = - int (Suc k)" using False k by (simp add: ilog2_def n_def y_def)
    from bit_length_bounds[OF n] k have b: "2 ^ k \<le> n" "n < 2 ^ Suc k" by simp_all
    have ny: "of_int n < y" "y \<le> of_int n + 1" unfolding n_def by linarith+
    have "(2::rat) ^ k \<le> of_int n" using b(1) by simp
    with ny(1) have lo: "2 ^ k < y" by linarith
    have "n + 1 \<le> 2 ^ Suc k" using b(2) by simp
    then have "rat_of_int (n + 1) \<le> of_int (2 ^ Suc k)" by (simp only: of_int_le_iff)
    with ny(2) have hi: "y \<le> 2 ^ Suc k" by simp
    have xy: "x = 1 / y" using assms by (simp add: y_def)
    have ypos: "0 < y" using y1 by simp
    have a: "1 / 2 ^ Suc k \<le> x" unfolding xy using hi ypos
      by (intro divide_left_mono) auto
    have b': "x < 1 / 2 ^ k" unfolding xy using lo ypos
      by (intro divide_strict_left_mono) auto
    have p1: "2 powi (- int (Suc k)) = 1 / (2::rat) ^ Suc k"
      by (simp only: power_int_minus_divide power_int_of_nat)
    have "- int (Suc k) + 1 = - int k" by simp
    then have p2: "2 powi (- int (Suc k) + 1) = 1 / (2::rat) ^ k"
      by (simp only: power_int_minus_divide power_int_of_nat)
    show ?thesis unfolding il p1 p2 using a b' by simp
  qed
  then show "2 powi ilog2 x \<le> x" and "x < 2 powi (ilog2 x + 1)" by simp_all
qed

lemma ilog2_unique:
  assumes "0 < x" "2 powi k \<le> x" "x < 2 powi (k + 1)"
  shows "ilog2 x = k"
proof -
  have a: "(2::rat) powi ilog2 x < 2 powi (k + 1)"
    using ilog2_bounds(1)[OF assms(1)] assms(3) by simp
  have b: "(2::rat) powi k < 2 powi (ilog2 x + 1)"
    using ilog2_bounds(2)[OF assms(1)] assms(2) by simp
  have "ilog2 x < k + 1"
    using a power_int_increasing[of "k + 1" "ilog2 x" "2::rat"] by (cases "ilog2 x < k + 1") auto
  moreover have "k < ilog2 x + 1"
    using b power_int_increasing[of "ilog2 x + 1" k "2::rat"] by (cases "k < ilog2 x + 1") auto
  ultimately show ?thesis by simp
qed

lemma ilog2_mono:
  assumes "0 < x" "x \<le> y"
  shows "ilog2 x \<le> ilog2 y"
proof -
  have "(2::rat) powi ilog2 x < 2 powi (ilog2 y + 1)"
    using ilog2_bounds(1)[OF assms(1)] ilog2_bounds(2)[of y] assms by simp
  then have "ilog2 x < ilog2 y + 1"
    using power_int_increasing[of "ilog2 y + 1" "ilog2 x" "2::rat"]
    by (cases "ilog2 x < ilog2 y + 1") auto
  then show ?thesis by simp
qed

subsection \<open>Rounding to an integer\<close>

lemma floor_rat_divide_numeral:
  "\<lfloor>numeral a / numeral b :: rat\<rfloor> = numeral a div numeral b"
  using floor_divide_of_int_eq[of "numeral a" "numeral b", where ?'a = rat] by simp

lemma floor_rat_minus_divide_numeral:
  "\<lfloor>- (numeral a / numeral b) :: rat\<rfloor> = - numeral a div numeral b"
  using floor_divide_of_int_eq[of "- numeral a" "numeral b", where ?'a = rat] by simp

lemma floor_rat_one_divide_numeral:
  "\<lfloor>1 / numeral b :: rat\<rfloor> = 1 div numeral b"
  using floor_divide_of_int_eq[of 1 "numeral b", where ?'a = rat] by simp

lemma floor_rat_minus_one_divide_numeral:
  "\<lfloor>- (1 / numeral b) :: rat\<rfloor> = - 1 div numeral b"
  using floor_divide_of_int_eq[of "- 1" "numeral b", where ?'a = rat] by simp

lemmas round_half_even_eval =
  round_half_even_def Let_def floor_rat_divide_numeral floor_rat_minus_divide_numeral
  floor_rat_one_divide_numeral floor_rat_minus_one_divide_numeral

lemma round_half_even_of_int [simp]: "round_half_even (of_int n) = n"
  by (simp add: round_half_even_def)

lemma round_half_even_cases:
  "(round_half_even x = \<lfloor>x\<rfloor> \<and> x - of_int \<lfloor>x\<rfloor> \<le> 1 / 2) \<or>
   (round_half_even x = \<lfloor>x\<rfloor> + 1 \<and> 1 / 2 \<le> x - of_int \<lfloor>x\<rfloor>)"
  by (auto simp: round_half_even_def Let_def)

lemma round_half_even_bounds:
  "of_int (round_half_even x) \<le> x + 1 / 2" "x - 1 / 2 \<le> of_int (round_half_even x)"
proof -
  have fl: "rat_of_int \<lfloor>x\<rfloor> \<le> x" "x < of_int \<lfloor>x\<rfloor> + 1" by linarith+
  from round_half_even_cases[of x]
  show "of_int (round_half_even x) \<le> x + 1 / 2"
  proof
    assume a: "round_half_even x = \<lfloor>x\<rfloor> \<and> x - of_int \<lfloor>x\<rfloor> \<le> 1 / 2"
    then have "rat_of_int (round_half_even x) = of_int \<lfloor>x\<rfloor>" by simp
    with a fl show ?thesis by linarith
  next
    assume a: "round_half_even x = \<lfloor>x\<rfloor> + 1 \<and> 1 / 2 \<le> x - of_int \<lfloor>x\<rfloor>"
    then have "rat_of_int (round_half_even x) = of_int \<lfloor>x\<rfloor> + 1" by simp
    with a fl show ?thesis by linarith
  qed
  from round_half_even_cases[of x]
  show "x - 1 / 2 \<le> of_int (round_half_even x)"
  proof
    assume a: "round_half_even x = \<lfloor>x\<rfloor> \<and> x - of_int \<lfloor>x\<rfloor> \<le> 1 / 2"
    then have "rat_of_int (round_half_even x) = of_int \<lfloor>x\<rfloor>" by simp
    with a fl show ?thesis by linarith
  next
    assume a: "round_half_even x = \<lfloor>x\<rfloor> + 1 \<and> 1 / 2 \<le> x - of_int \<lfloor>x\<rfloor>"
    then have "rat_of_int (round_half_even x) = of_int \<lfloor>x\<rfloor> + 1" by simp
    with a fl show ?thesis by linarith
  qed
qed

lemma round_half_even_eqI:
  assumes "\<bar>x - of_int m\<bar> < 1 / 2"
  shows "round_half_even x = m"
proof -
  from round_half_even_bounds[of x] assms
  have "\<bar>rat_of_int (round_half_even x) - of_int m\<bar> < 1" by linarith
  then have "\<bar>rat_of_int (round_half_even x - m)\<bar> < of_int 1" by simp
  then have "\<bar>round_half_even x - m\<bar> < 1" by (simp only: of_int_abs[symmetric] of_int_less_iff)
  then show ?thesis by simp
qed

lemma round_half_even_mono:
  assumes "x \<le> y"
  shows "round_half_even x \<le> round_half_even y"
proof (cases "\<lfloor>x\<rfloor> = \<lfloor>y\<rfloor>")
  case True
  then show ?thesis using assms by (auto simp: round_half_even_def Let_def)
next
  case False
  then have "\<lfloor>x\<rfloor> < \<lfloor>y\<rfloor>" using floor_mono[OF assms] by simp
  then have "\<lfloor>x\<rfloor> + 1 \<le> \<lfloor>y\<rfloor>" by simp
  moreover have "round_half_even x \<le> \<lfloor>x\<rfloor> + 1" by (simp add: round_half_even_def Let_def)
  moreover have "\<lfloor>y\<rfloor> \<le> round_half_even y" by (simp add: round_half_even_def Let_def)
  ultimately show ?thesis by linarith
qed

lemma round_half_even_minus: "round_half_even (- x) = - round_half_even x"
proof (cases "x \<in> \<int>")
  case True
  then obtain n where "x = of_int n" by (auto elim: Ints_cases)
  then show ?thesis by (simp flip: of_int_minus)
next
  case False
  then have "x \<noteq> of_int \<lfloor>x\<rfloor>" by (metis Ints_of_int)
  then have c: "\<lceil>x\<rceil> = \<lfloor>x\<rfloor> + 1" by (simp add: ceiling_altdef)
  have f: "\<lfloor>- x\<rfloor> = - \<lfloor>x\<rfloor> - 1" using c by (simp add: ceiling_def)
  show ?thesis unfolding round_half_even_def Let_def f
    by (auto simp: algebra_simps)
qed

subsection \<open>Rounding to a double\<close>

lemma two_powi_pos [simp]: "0 < (2::rat) powi e"
  by simp

lemma two_powi_add: "(2::rat) powi (a + b) = 2 powi a * 2 powi b"
  by (simp add: power_int_add)

lemma two_powi_diff: "(2::rat) powi (a - b) = 2 powi a / 2 powi b"
  by (simp add: power_int_diff)

lemma two_powi_nat: "0 \<le> e \<Longrightarrow> (2::rat) powi e = of_int (2 ^ nat e)"
  by (simp add: power_int_nonneg_exp)

lemma two_powi_less_iff: "(2::rat) powi a < 2 powi b \<longleftrightarrow> a < b"
proof
  assume h: "(2::rat) powi a < 2 powi b"
  show "a < b"
  proof (rule ccontr)
    assume "\<not> a < b"
    then have "b \<le> a" by simp
    then have "(2::rat) powi b \<le> 2 powi a" by (intro power_int_increasing) auto
    with h show False by simp
  qed
next
  assume "a < b"
  then show "(2::rat) powi a < 2 powi b" by (intro power_int_strict_increasing) auto
qed

lemma two_powi_le_iff: "(2::rat) powi a \<le> 2 powi b \<longleftrightarrow> a \<le> b"
  using two_powi_less_iff[of b a] by (auto simp: not_less[symmetric])

lemma double_exponent_ge: "- 1074 \<le> double_exponent x" "ilog2 \<bar>x\<bar> - 52 \<le> double_exponent x"
  by (simp_all add: double_exponent_def)

lemma double_exponent_minus [simp]: "double_exponent (- x) = double_exponent x"
  by (simp add: double_exponent_def)

lemma double_exponent_eqI:
  assumes "x \<noteq> 0" "- 1074 \<le> e" "\<bar>x\<bar> < 2 ^ 53 * 2 powi e"
    and "2 ^ 52 * 2 powi e \<le> \<bar>x\<bar> \<or> e = - 1074"
  shows "double_exponent x = e"
proof -
  have pos: "0 < \<bar>x\<bar>" using assms(1) by simp
  have p53: "(2::rat) ^ 53 * 2 powi e = 2 powi (e + 52 + 1)"
    by (simp add: two_powi_add)
  have p52: "(2::rat) ^ 52 * 2 powi e = 2 powi (e + 52)"
    by (simp add: two_powi_add)
  show ?thesis
  proof (cases "2 ^ 52 * 2 powi e \<le> \<bar>x\<bar>")
    case True
    have "ilog2 \<bar>x\<bar> = e + 52"
      using pos True assms(3) unfolding p53 p52 by (intro ilog2_unique) auto
    then show ?thesis using assms(2) by (simp add: double_exponent_def)
  next
    case False
    then have e: "e = - 1074" using assms(4) by simp
    have "2 powi ilog2 \<bar>x\<bar> < (2::rat) powi (e + 52)"
      using ilog2_bounds(1)[OF pos] False unfolding p52 by simp
    then have "ilog2 \<bar>x\<bar> < e + 52" by (simp only: two_powi_less_iff)
    then show ?thesis using e by (simp add: double_exponent_def)
  qed
qed

lemma round_to_double_eqI:
  assumes "double_exponent x = e" "\<bar>x / 2 powi e - of_int m\<bar> < 1 / 2"
  shows "round_to_double x = of_int m * 2 powi e"
proof (cases "x = 0")
  case True
  with assms(2) have "\<bar>rat_of_int m\<bar> < 1 / 2" by simp
  then have "\<bar>rat_of_int m\<bar> < of_int 1" by simp
  then have "\<bar>m\<bar> < 1" by (simp only: of_int_abs[symmetric] of_int_less_iff)
  then have "m = 0" by simp
  with True show ?thesis by (simp add: round_to_double_def)
next
  case False
  then show ?thesis
    using assms round_half_even_eqI[OF assms(2)] by (simp add: round_to_double_def Let_def)
qed

lemma round_to_double_minus: "round_to_double (- x) = - round_to_double x"
  by (simp add: round_to_double_def Let_def round_half_even_minus)

lemma round_to_double_0 [simp]: "round_to_double 0 = 0"
  by (simp add: round_to_double_def)

lemma scaled_less:
  assumes "x \<noteq> 0"
  shows "\<bar>x / 2 powi double_exponent x\<bar> < 2 ^ 53"
proof -
  have pos: "0 < \<bar>x\<bar>" using assms by simp
  let ?d = "double_exponent x"
  have "ilog2 \<bar>x\<bar> + 1 \<le> ?d + 53" using double_exponent_ge(2)[of x] by simp
  then have "(2::rat) powi (ilog2 \<bar>x\<bar> + 1) \<le> 2 powi (?d + 53)" by (simp only: two_powi_le_iff)
  with ilog2_bounds(2)[OF pos] have "\<bar>x\<bar> < 2 powi (?d + 53)" by simp
  also have "\<dots> = 2 ^ 53 * 2 powi ?d" by (simp add: two_powi_add)
  finally have "\<bar>x\<bar> / 2 powi ?d < 2 ^ 53" by (simp add: pos_divide_less_eq)
  then show ?thesis by simp
qed

lemma round_to_double_representable:
  "\<exists>m e. \<bar>m\<bar> \<le> 2 ^ 53 \<and> - 1074 \<le> e \<and> round_to_double x = of_int m * 2 powi e"
proof (cases "x = 0")
  case True
  have "\<bar>0::int\<bar> \<le> 2 ^ 53 \<and> - 1074 \<le> (0::int) \<and> round_to_double x = of_int 0 * 2 powi 0"
    using True by simp
  then show ?thesis by blast
next
  case False
  let ?d = "double_exponent x"
  let ?y = "x / 2 powi ?d"
  let ?m = "round_half_even ?y"
  from scaled_less[OF False] have y: "- (2 ^ 53) \<le> ?y" "?y \<le> 2 ^ 53" by linarith+
  have "round_half_even ?y \<le> round_half_even (of_int (2 ^ 53))"
    using y(2) by (intro round_half_even_mono) simp
  moreover have "round_half_even (of_int (- (2 ^ 53))) \<le> round_half_even ?y"
    using y(1) by (intro round_half_even_mono) simp
  ultimately have "\<bar>?m\<bar> \<le> 2 ^ 53" unfolding round_half_even_of_int by simp
  moreover have "round_to_double x = of_int ?m * 2 powi ?d"
    using False by (simp add: round_to_double_def Let_def)
  ultimately show ?thesis using double_exponent_ge(1)[of x] by blast
qed

lemma round_to_double_fixed:
  assumes "\<bar>m\<bar> \<le> 2 ^ 53" "- 1074 \<le> e"
  shows "round_to_double (of_int m * 2 powi e) = of_int m * 2 powi e"
proof (cases "m = 0")
  case True
  then show ?thesis by simp
next
  case False
  define x :: rat where "x = of_int m * 2 powi e"
  let ?d = "double_exponent x"
  have x0: "x \<noteq> 0" using False by (simp add: x_def)
  have pos: "0 < \<bar>x\<bar>" using x0 by simp
  have ax: "\<bar>x\<bar> = of_int \<bar>m\<bar> * 2 powi e" by (simp add: x_def abs_mult)
  have "rat_of_int \<bar>m\<bar> \<le> of_int (2 ^ 53)" using assms(1) by (simp only: of_int_le_iff)
  then have "\<bar>x\<bar> \<le> 2 ^ 53 * 2 powi e" unfolding ax by (simp add: mult_right_mono)
  also have "\<dots> = 2 powi (e + 53)" by (simp add: two_powi_add)
  finally have up: "\<bar>x\<bar> \<le> 2 powi (e + 53)" .
  have "2 powi ilog2 \<bar>x\<bar> \<le> (2::rat) powi (e + 53)"
    using ilog2_bounds(1)[OF pos] up by simp
  then have il: "ilog2 \<bar>x\<bar> \<le> e + 53" by (simp only: two_powi_le_iff)
  then have d: "?d \<le> e + 1" using assms(2) by (simp add: double_exponent_def)
  have "\<exists>k. x / 2 powi ?d = of_int k"
  proof (cases "?d \<le> e")
    case True
    have "x / 2 powi ?d = of_int m * 2 powi (e - ?d)" by (simp add: x_def two_powi_diff)
    also have "\<dots> = of_int m * of_int (2 ^ nat (e - ?d))" using True by (simp add: two_powi_nat)
    also have "\<dots> = of_int (m * 2 ^ nat (e - ?d))" by simp
    finally show ?thesis by blast
  next
    case False
    with d have de: "?d = e + 1" by simp
    then have "ilog2 \<bar>x\<bar> - 52 = e + 1" using assms(2) by (simp add: double_exponent_def max_def split: if_splits)
    then have "ilog2 \<bar>x\<bar> = e + 53" by simp
    with ilog2_bounds(1)[OF pos] have "2 powi (e + 53) \<le> \<bar>x\<bar>" by simp
    with up have "\<bar>x\<bar> = 2 powi (e + 53)" by simp
    then have "of_int \<bar>m\<bar> * 2 powi e = (2::rat) ^ 53 * 2 powi e" unfolding ax by (simp add: two_powi_add)
    then have "rat_of_int \<bar>m\<bar> = of_int (2 ^ 53)" by simp
    then have am: "\<bar>m\<bar> = 2 ^ 53" by (simp only: of_int_eq_iff)
    then have "m = 9007199254740992 \<or> m = - 9007199254740992" by (simp add: abs_if split: if_splits)
    then have "m = 2 * (m div 2)" by auto
    then have "rat_of_int m = 2 * of_int (m div 2)" by (metis of_int_mult of_int_numeral)
    then have "x / 2 powi ?d = of_int (m div 2)" unfolding de by (simp add: x_def two_powi_add)
    then show ?thesis by blast
  qed
  then obtain k where k: "x / 2 powi ?d = of_int k" by blast
  have "round_to_double x = of_int (round_half_even (x / 2 powi ?d)) * 2 powi ?d"
    using x0 by (simp add: round_to_double_def Let_def)
  also have "\<dots> = x / 2 powi ?d * 2 powi ?d"
    unfolding k round_half_even_of_int ..
  also have "\<dots> = x" by simp
  finally have "round_to_double x = x" .
  then show ?thesis by (simp add: x_def)
qed

lemma round_to_double_idem: "round_to_double (round_to_double x) = round_to_double x"
proof -
  from round_to_double_representable[of x] obtain m e
    where "\<bar>m\<bar> \<le> 2 ^ 53" "- 1074 \<le> e" "round_to_double x = of_int m * 2 powi e" by blast
  then show ?thesis using round_to_double_fixed[of m e] by simp
qed

lemma round_to_double_of_int:
  assumes "\<bar>n\<bar> \<le> 2 ^ 53"
  shows "round_to_double (of_int n) = of_int n"
  using round_to_double_fixed[OF assms, of 0] by simp

lemma round_to_double_nonneg:
  assumes "0 \<le> x"
  shows "0 \<le> round_to_double x"
proof (cases "x = 0")
  case True
  then show ?thesis by simp
next
  case False
  have "0 \<le> x / 2 powi double_exponent x" using assms by simp
  then have "round_half_even (of_int 0) \<le> round_half_even (x / 2 powi double_exponent x)"
    by (intro round_half_even_mono) simp
  then have "0 \<le> round_half_even (x / 2 powi double_exponent x)"
    unfolding round_half_even_of_int .
  then show ?thesis using False by (simp add: round_to_double_def Let_def)
qed

lemma round_to_double_mono_pos:
  assumes "0 < x" "x \<le> y"
  shows "round_to_double x \<le> round_to_double y"
proof -
  let ?dx = "double_exponent x" and ?dy = "double_exponent y"
  have y0: "0 < y" using assms by simp
  have rx: "round_to_double x = of_int (round_half_even (x / 2 powi ?dx)) * 2 powi ?dx"
    using assms(1) by (simp add: round_to_double_def Let_def)
  have ry: "round_to_double y = of_int (round_half_even (y / 2 powi ?dy)) * 2 powi ?dy"
    using y0 by (simp add: round_to_double_def Let_def)
  have il: "ilog2 \<bar>x\<bar> \<le> ilog2 \<bar>y\<bar>" using assms by (intro ilog2_mono) auto
  then have dxy: "?dx \<le> ?dy" by (auto simp: double_exponent_def)
  show ?thesis
  proof (cases "?dx = ?dy")
    case True
    have "x / 2 powi ?dy \<le> y / 2 powi ?dy" using assms(2) by (simp add: divide_right_mono)
    then have "round_half_even (x / 2 powi ?dy) \<le> round_half_even (y / 2 powi ?dy)"
      by (rule round_half_even_mono)
    then have "rat_of_int (round_half_even (x / 2 powi ?dy)) \<le> of_int (round_half_even (y / 2 powi ?dy))"
      by (simp only: of_int_le_iff)
    then show ?thesis unfolding rx ry True by (simp add: mult_right_mono)
  next
    case False
    with dxy have lt: "?dx < ?dy" by simp
    then have dy: "?dy = ilog2 \<bar>y\<bar> - 52" using double_exponent_ge(1)[of x]
      by (simp add: double_exponent_def max_def split: if_splits)
    define B :: rat where "B = 2 powi (?dy + 52)"
    have By: "B \<le> y" using ilog2_bounds(1)[of "\<bar>y\<bar>"] y0 by (simp add: B_def dy)
    have "ilog2 \<bar>x\<bar> - 52 < ?dy" using double_exponent_ge(2)[of x] lt by simp
    then have "ilog2 \<bar>x\<bar> + 1 \<le> ?dy + 52" by simp
    then have "(2::rat) powi (ilog2 \<bar>x\<bar> + 1) \<le> B" unfolding B_def by (simp only: two_powi_le_iff)
    with ilog2_bounds(2)[of "\<bar>x\<bar>"] assms(1) have xB: "x \<le> B" by simp
    have "B / 2 powi ?dy = 2 powi 52" by (simp add: B_def two_powi_add)
    then have By': "B / 2 powi ?dy = of_int (2 ^ 52)" by simp
    have "B / 2 powi ?dx = 2 powi (?dy + 52 - ?dx)" by (simp add: B_def two_powi_diff)
    also have "\<dots> = of_int (2 ^ nat (?dy + 52 - ?dx))" using lt by (intro two_powi_nat) simp
    finally have Bx': "B / 2 powi ?dx = of_int (2 ^ nat (?dy + 52 - ?dx))" .
    have "round_half_even (x / 2 powi ?dx) \<le> round_half_even (B / 2 powi ?dx)"
      using xB by (intro round_half_even_mono) (simp add: divide_right_mono)
    then have "rat_of_int (round_half_even (x / 2 powi ?dx)) \<le> of_int (round_half_even (B / 2 powi ?dx))"
      by (simp only: of_int_le_iff)
    then have "round_to_double x \<le> of_int (round_half_even (B / 2 powi ?dx)) * 2 powi ?dx"
      unfolding rx by (simp add: mult_right_mono)
    also have "\<dots> = B / 2 powi ?dx * 2 powi ?dx" unfolding Bx' round_half_even_of_int ..
    also have "\<dots> = B" by simp
    finally have a: "round_to_double x \<le> B" .
    have "round_half_even (B / 2 powi ?dy) \<le> round_half_even (y / 2 powi ?dy)"
      using By by (intro round_half_even_mono) (simp add: divide_right_mono)
    then have "rat_of_int (round_half_even (B / 2 powi ?dy)) \<le> of_int (round_half_even (y / 2 powi ?dy))"
      by (simp only: of_int_le_iff)
    then have "of_int (round_half_even (B / 2 powi ?dy)) * 2 powi ?dy \<le> round_to_double y"
      unfolding ry by (simp add: mult_right_mono)
    moreover have "of_int (round_half_even (B / 2 powi ?dy)) * 2 powi ?dy = B / 2 powi ?dy * 2 powi ?dy"
      unfolding By' round_half_even_of_int ..
    ultimately have b: "B \<le> round_to_double y" by simp
    from a b show ?thesis by simp
  qed
qed

lemma round_to_double_mono:
  assumes "x \<le> y"
  shows "round_to_double x \<le> round_to_double y"
proof -
  consider "0 < x" | "x \<le> 0" "0 \<le> y" | "y < 0" by linarith
  then show ?thesis
  proof cases
    case 1
    then show ?thesis using assms by (rule round_to_double_mono_pos)
  next
    case 2
    have "0 \<le> round_to_double (- x)" using 2(1) by (intro round_to_double_nonneg) simp
    then have "round_to_double x \<le> 0" by (simp add: round_to_double_minus)
    moreover have "0 \<le> round_to_double y" using 2(2) by (rule round_to_double_nonneg)
    ultimately show ?thesis by simp
  next
    case 3
    have "round_to_double (- y) \<le> round_to_double (- x)"
      using 3 assms by (intro round_to_double_mono_pos) auto
    then show ?thesis by (simp add: round_to_double_minus)
  qed
qed

lemma round_to_double_max_double: "round_to_double max_double = max_double"
proof -
  have "round_to_double (of_int (2 ^ 53 - 1) * 2 powi 971) = of_int (2 ^ 53 - 1) * 2 powi 971"
    by (rule round_to_double_fixed) simp_all
  then show ?thesis by (simp add: max_double_def)
qed

lemma round_to_double_le_max:
  assumes "\<bar>x\<bar> \<le> max_double"
  shows "\<bar>round_to_double x\<bar> \<le> max_double"
proof -
  have "round_to_double x \<le> round_to_double max_double"
    using assms by (intro round_to_double_mono) simp
  moreover have "round_to_double (- max_double) \<le> round_to_double x"
    using assms by (intro round_to_double_mono) simp
  ultimately show ?thesis
    by (simp add: round_to_double_minus round_to_double_max_double abs_le_iff)
qed

lemma max_double_ge: "2 ^ 53 \<le> max_double"
  by (simp add: max_double_def)

lemma to_double_finite:
  assumes "\<bar>x\<bar> \<le> max_double"
  shows "to_double x = Fin (round_to_double x)"
  using round_to_double_le_max[OF assms] by (auto simp: to_double_def Let_def)

lemma to_double_cert:
  assumes "x \<noteq> 0" "k \<le> 1074" "\<bar>x\<bar> * 2 ^ k < 2 ^ 53" "2 ^ 52 \<le> \<bar>x\<bar> * 2 ^ k \<or> k = 1074"
    and "round_half_even (x * 2 ^ k) = m"
  shows "to_double x = Fin (of_int m / 2 ^ k)"
proof -
  have p: "(2::rat) powi (- int k) = 1 / 2 ^ k"
    by (simp only: power_int_minus_divide power_int_of_nat)
  have "double_exponent x = - int k"
    using assms(1-4) by (intro double_exponent_eqI) (auto simp: p pos_less_divide_eq pos_divide_le_eq)
  moreover have "x / 2 powi (- int k) = x * 2 ^ k"
    by (simp add: p)
  ultimately have r: "round_to_double x = of_int m / 2 ^ k"
    using assms(1,5) by (simp add: round_to_double_def Let_def p)
  have "1 \<le> (2::rat) ^ k" by simp
  then have "\<bar>x\<bar> * 1 \<le> \<bar>x\<bar> * 2 ^ k" by (intro mult_left_mono) auto
  with assms(3) have "\<bar>x\<bar> \<le> 2 ^ 53" by simp
  with max_double_ge have "\<bar>x\<bar> \<le> max_double" by simp
  then show ?thesis using r by (simp add: to_double_finite)
qed

lemma to_double_certI:
  assumes "x \<noteq> 0" "k \<le> 1074" "\<bar>x\<bar> * 2 ^ k < 2 ^ 53" "2 ^ 52 \<le> \<bar>x\<bar> * 2 ^ k \<or> k = 1074"
    and "round_half_even (x * 2 ^ k) = m" "y = of_int m / 2 ^ k"
  shows "to_double x = Fin y"
  using to_double_cert[OF assms(1-5)] assms(6) by simp

lemma round_half_even_0 [simp]: "round_half_even 0 = 0"
  using round_half_even_of_int[of 0] by simp

lemma round_half_even_1 [simp]: "round_half_even 1 = 1"
  using round_half_even_of_int[of 1] by simp

lemma round_half_even_numeral [simp]: "round_half_even (numeral k) = numeral k"
  using round_half_even_of_int[of "numeral k"] by simp

lemma round_half_even_neg_numeral [simp]: "round_half_even (- numeral k) = - numeral k"
  using round_half_even_of_int[of "- numeral k"] by simp

lemma to_double_0 [simp]: "to_double 0 = Fin 0"
  using to_double_finite[of 0] by (simp add: max_double_def)

lemma to_double_of_int:
  assumes "\<bar>n\<bar> \<le> 2 ^ 53"
  shows "to_double (of_int n) = Fin (of_int n)"
proof -
  have "rat_of_int \<bar>n\<bar> \<le> of_int (2 ^ 53)" using assms by (simp only: of_int_le_iff)
  then have "\<bar>rat_of_int n\<bar> \<le> 2 ^ 53" by simp
  with max_double_ge have "\<bar>rat_of_int n\<bar> \<le> max_double" by linarith
  then show ?thesis using round_to_double_of_int[OF assms] by (simp add: to_double_finite)
qed

lemma to_double_numeral:
  assumes "(numeral k :: int) \<le> 2 ^ 53"
  shows "to_double (numeral k) = Fin (numeral k)"
  using to_double_of_int[of "numeral k"] assms by simp

lemma to_double_1 [simp]: "to_double 1 = Fin 1"
  using to_double_of_int[of 1] by simp

lemma int_to_float_small:
  assumes "\<bar>n\<bar> \<le> 2 ^ 53"
  shows "int_to_float n = Fin (of_int n)"
  using to_double_of_int[OF assms] by (simp add: int_to_float_def)

lemma round_to_double_abs_err:
  assumes "k \<le> 1074" "\<bar>a\<bar> * 2 ^ k \<le> 2 ^ 52"
  shows "\<bar>round_to_double a - a\<bar> \<le> 1 / 2 ^ k"
proof -
  define lo where "lo = \<lfloor>a * 2 ^ k\<rfloor>"
  define hi where "hi = \<lceil>a * 2 ^ k\<rceil>"
  have p: "(2::rat) powi (- int k) = 1 / 2 ^ k"
    by (simp only: power_int_minus_divide power_int_of_nat)
  have "\<bar>a * 2 ^ k\<bar> = \<bar>a\<bar> * 2 ^ k" by (simp add: abs_mult)
  with assms(2) have b: "- (2 ^ 52) \<le> a * 2 ^ k" "a * 2 ^ k \<le> 2 ^ 52"
    by linarith+
  have lo1: "rat_of_int lo \<le> a * 2 ^ k" "a * 2 ^ k < of_int lo + 1" unfolding lo_def by linarith+
  have hi1: "a * 2 ^ k \<le> rat_of_int hi" "of_int hi < a * 2 ^ k + 1" unfolding hi_def by linarith+
  have "rat_of_int (- (2 ^ 52)) \<le> a * 2 ^ k" using b(1) by simp
  then have "- (2 ^ 52) \<le> lo" unfolding lo_def by (simp only: le_floor_iff)
  moreover have "a * 2 ^ k \<le> rat_of_int (2 ^ 52)" using b(2) by simp
  then have "hi \<le> 2 ^ 52" unfolding hi_def by (simp only: ceiling_le_iff)
  moreover have "lo \<le> hi" unfolding lo_def hi_def by (rule floor_le_ceiling)
  ultimately have m: "\<bar>lo\<bar> \<le> 2 ^ 53" "\<bar>hi\<bar> \<le> 2 ^ 53" by simp_all
  have e: "- 1074 \<le> - int k" using assms(1) by simp
  have flo: "round_to_double (of_int lo / 2 ^ k) = of_int lo / 2 ^ k"
    using round_to_double_fixed[OF m(1) e] by (simp add: p)
  have fhi: "round_to_double (of_int hi / 2 ^ k) = of_int hi / 2 ^ k"
    using round_to_double_fixed[OF m(2) e] by (simp add: p)
  have "of_int lo / 2 ^ k \<le> a" using lo1(1) by (simp add: pos_divide_le_eq)
  then have l: "of_int lo / 2 ^ k \<le> round_to_double a"
    using round_to_double_mono[of "of_int lo / 2 ^ k" a] flo by simp
  have "a \<le> of_int hi / 2 ^ k" using hi1(1) by (simp add: pos_le_divide_eq)
  then have h: "round_to_double a \<le> of_int hi / 2 ^ k"
    using round_to_double_mono[of a "of_int hi / 2 ^ k"] fhi by simp
  have "a * 2 ^ k / 2 ^ k < (of_int lo + 1) / 2 ^ k"
    using lo1(2) by (intro divide_strict_right_mono) simp_all
  then have "a < of_int lo / 2 ^ k + 1 / 2 ^ k" by (simp add: add_divide_distrib)
  moreover have "of_int hi / 2 ^ k < (a * 2 ^ k + 1) / 2 ^ k"
    using hi1(2) by (intro divide_strict_right_mono) simp_all
  then have "of_int hi / 2 ^ k < a + 1 / 2 ^ k" by (simp add: add_divide_distrib)
  ultimately show ?thesis using l h by linarith
qed

subsection \<open>The estimator on its domain\<close>

lemma is_double_to_double: "is_double (Fin x) \<Longrightarrow> to_double x = Fin x"
  by (simp add: is_double_def to_double_finite)

lemma is_double_bound: "is_double (Fin x) \<Longrightarrow> \<bar>x\<bar> \<le> max_double"
  by (simp add: is_double_def)

lemma float_lit_100: "float_lit 100 = Fin 100"
  by (simp add: float_lit_def to_double_numeral)

lemma float_lit_1: "float_lit 1 = Fin 1"
  by (simp add: float_lit_def)

lemma max_double_ge_1: "1 \<le> max_double"
  using max_double_ge by simp

lemma round_to_double_1 [simp]: "round_to_double 1 = 1"
  using round_to_double_of_int[of 1] by simp

lemma share_fraction:
  assumes "0 \<le> p" "p \<le> 100"
  shows "0 \<le> round_to_double (p / 100)" "round_to_double (p / 100) \<le> 1"
    and "to_double (p / 100) = Fin (round_to_double (p / 100))"
proof -
  show "0 \<le> round_to_double (p / 100)" using assms(1) by (intro round_to_double_nonneg) simp
  have "round_to_double (p / 100) \<le> round_to_double 1"
    using assms(2) by (intro round_to_double_mono) simp
  then show "round_to_double (p / 100) \<le> 1" by simp
  have "\<bar>p / 100\<bar> \<le> 1" using assms by simp
  with max_double_ge_1 have "\<bar>p / 100\<bar> \<le> max_double" by linarith
  then show "to_double (p / 100) = Fin (round_to_double (p / 100))" by (rule to_double_finite)
qed

lemma product_bounded:
  assumes "0 \<le> f" "f \<le> max_double" "0 \<le> c" "c \<le> 1"
  shows "0 \<le> round_to_double (f * c)" "round_to_double (f * c) \<le> max_double"
    and "to_double (f * c) = Fin (round_to_double (f * c))"
proof -
  have nn: "0 \<le> f * c" using assms by simp
  then show "0 \<le> round_to_double (f * c)" by (rule round_to_double_nonneg)
  have "f * c \<le> f * 1" using assms by (intro mult_left_mono) auto
  with assms(2) have le: "f * c \<le> max_double" by simp
  with nn have a: "\<bar>f * c\<bar> \<le> max_double" by simp
  from round_to_double_le_max[OF a] show "round_to_double (f * c) \<le> max_double" by simp
  from a show "to_double (f * c) = Fin (round_to_double (f * c))" by (rule to_double_finite)
qed

lemma difference_bounded:
  assumes "0 \<le> v" "v \<le> max_double" "0 \<le> s" "s \<le> max_double"
  shows "to_double (v - s) = Fin (round_to_double (v - s))"
proof -
  have "\<bar>v - s\<bar> \<le> max_double" using assms by (simp add: abs_le_iff)
  then show ?thesis by (rule to_double_finite)
qed

lemma estimate_unfold:
  assumes "0 \<le> v" "v \<le> max_double" "0 \<le> f" "f \<le> max_double" "0 \<le> p" "p \<le> 100"
  shows "estimate (Fin v) (Fin f) (Fin p) =
           \<lparr>solo_facilities = Fin (spec_solo_facilities f p),
            multi_facilities = Fin (round_to_double (f - spec_solo_facilities f p)),
            solo_vets_est = Fin (spec_solo_facilities f p),
            multi_vets_est =
              (if round_to_double (v - spec_solo_facilities f p) < 0 then PyInt 0
               else PyFloat (Fin (round_to_double (v - spec_solo_facilities f p))))\<rparr>"
proof -
  define c where "c = round_to_double (p / 100)"
  define s where "s = round_to_double (f * c)"
  have s_def': "s = spec_solo_facilities f p" by (simp add: s_def c_def spec_solo_facilities_def)
  from share_fraction[OF assms(5,6)]
  have c: "0 \<le> c" "c \<le> 1" "to_double (p / 100) = Fin c" by (simp_all add: c_def)
  from product_bounded[OF assms(3,4) c(1,2)]
  have s: "0 \<le> s" "s \<le> max_double" "to_double (f * c) = Fin s" by (simp_all add: s_def)
  have s1: "to_double s = Fin s"
    using to_double_finite[of s] s(1,2) by (simp add: s_def round_to_double_idem)
  have d1: "to_double (f - s) = Fin (round_to_double (f - s))"
    using assms(3,4) s(1,2) by (rule difference_bounded)
  have d2: "to_double (v - s) = Fin (round_to_double (v - s))"
    using assms(1,2) s(1,2) by (rule difference_bounded)
  show ?thesis
    unfolding s_def'[symmetric]
    by (simp add: estimate_def Let_def float_lit_100 float_lit_1 c(3) s(3) s1 float_sub_def d1 d2
        py_max_def num_gt_def)
qed

lemma slider_values_range:
  assumes "p \<in> set slider_values"
  shows "0 \<le> p" "p \<le> 80"
  using assms by (auto simp: slider_values_def)

lemma round_to_double_sixteenths:
  assumes "\<bar>n\<bar> \<le> 2 ^ 53"
  shows "round_to_double (of_int n / 16) = of_int n / 16"
proof -
  have "(2::rat) powi (- 4) = 1 / 16" by (simp add: power_int_minus_divide)
  with round_to_double_fixed[OF assms, of "- 4"] show ?thesis by simp
qed

lemma no_clamp:
  fixes v f p :: int
  assumes "0 \<le> f" "13 * f < 16 * v" "v \<le> 2 ^ 40" "0 \<le> p" "p \<le> 80"
  shows "\<exists>s m. estimate (int_to_float v) (int_to_float f) (int_to_float p)
                 = \<lparr>solo_facilities = Fin s, multi_facilities = Fin (round_to_double (of_int f - s)),
                    solo_vets_est = Fin s, multi_vets_est = PyFloat (Fin m)\<rparr>
               \<and> s < of_int v \<and> 0 < m"
proof -
  have v0: "0 \<le> v" using assms(1,2) by linarith
  have f40: "f \<le> 2 ^ 41" using assms(2,3) by simp
  have iv: "int_to_float v = Fin (of_int v)" using v0 assms(3) by (intro int_to_float_small) simp
  have "int_to_float f = Fin (of_int f)" using assms(1) f40 by (intro int_to_float_small) simp
  note if' = this
  have ip: "int_to_float p = Fin (of_int p)" using assms(4,5) by (intro int_to_float_small) simp
  have "rat_of_int v \<le> of_int (2 ^ 40)" using assms(3) by (simp only: of_int_le_iff)
  then have "rat_of_int v \<le> 2 ^ 53" by simp
  with max_double_ge have vm: "rat_of_int v \<le> max_double" by linarith
  have "rat_of_int f \<le> of_int (2 ^ 41)" using f40 by (simp only: of_int_le_iff)
  then have "rat_of_int f \<le> 2 ^ 53" by simp
  with max_double_ge have fm: "rat_of_int f \<le> max_double" by linarith
  have p100: "rat_of_int p \<le> 100" using assms(5) by simp
  define s where "s = spec_solo_facilities (of_int f) (of_int p)"
  define c where "c = round_to_double (rat_of_int p / 100)"
  have "rat_of_int p / 100 \<le> of_int 13 / 16" using assms(5) by simp
  then have "c \<le> round_to_double (of_int 13 / 16)" unfolding c_def by (rule round_to_double_mono)
  then have c: "c \<le> 13 / 16" using round_to_double_sixteenths[of 13] by simp
  have "rat_of_int f * c \<le> of_int f * (13 / 16)" using assms(1) c by (intro mult_left_mono) auto
  then have "rat_of_int f * c \<le> of_int (13 * f) / 16" by simp
  then have "s \<le> round_to_double (of_int (13 * f) / 16)"
    unfolding s_def spec_solo_facilities_def c_def[symmetric] by (rule round_to_double_mono)
  moreover have "\<bar>13 * f\<bar> \<le> 2 ^ 53" using assms(1) f40 by simp
  ultimately have s: "s \<le> of_int (13 * f) / 16" using round_to_double_sixteenths[of "13 * f"] by simp
  have "rat_of_int (13 * f) < of_int (16 * v)" using assms(2) by (simp only: of_int_less_iff)
  then have lt: "rat_of_int (13 * f) / 16 < of_int v" by simp
  with s have sv: "s < of_int v" by linarith
  define m where "m = round_to_double (of_int v - s)"
  have "of_int (16 * v - 13 * f) / 16 \<le> rat_of_int v - s" using s by (simp add: diff_divide_distrib)
  then have "round_to_double (of_int (16 * v - 13 * f) / 16) \<le> m"
    unfolding m_def by (rule round_to_double_mono)
  moreover have "\<bar>16 * v - 13 * f\<bar> \<le> 2 ^ 53" using assms(1,2,3) by simp
  ultimately have "of_int (16 * v - 13 * f) / 16 \<le> m"
    using round_to_double_sixteenths[of "16 * v - 13 * f"] by simp
  moreover have "0 < rat_of_int (16 * v - 13 * f)" using assms(2) by simp
  then have "0 < rat_of_int (16 * v - 13 * f) / 16" by (intro divide_pos_pos) simp_all
  ultimately have m: "0 < m" by linarith
  have "estimate (Fin (of_int v)) (Fin (of_int f)) (Fin (of_int p)) =
      \<lparr>solo_facilities = Fin s, multi_facilities = Fin (round_to_double (of_int f - s)),
       solo_vets_est = Fin s, multi_vets_est = PyFloat (Fin m)\<rparr>"
    using estimate_unfold[of "of_int v" "of_int f" "of_int p"] v0 vm assms(1) fm assms(4) p100 m
    by (simp add: s_def m_def)
  with sv m show ?thesis unfolding iv if' ip by blast
qed

section \<open>Evaluation of the tables\<close>

text \<open>
  Each lemma below is one rounding of the run: the exact argument, and the double it rounds
  to, checked against \<open>to_double_certI\<close>.
\<close>

lemma ratio_1: "to_double (2693 / 880) = Fin (6891019202561787 / 2251799813685248)"
  by (rule to_double_certI[where k = 51 and m = "6891019202561787"]) (simp_all add: round_half_even_eval)

lemma ratio_2: "to_double (1606 / 471) = Fin (7678111466621037 / 2251799813685248)"
  by (rule to_double_certI[where k = 51 and m = "7678111466621037"]) (simp_all add: round_half_even_eval)

lemma ratio_3: "to_double (2099 / 608) = Fin (7773894422574565 / 2251799813685248)"
  by (rule to_double_certI[where k = 51 and m = "7773894422574565"]) (simp_all add: round_half_even_eval)

lemma ratio_4: "to_double (2141 / 688) = Fin (7007417734157145 / 2251799813685248)"
  by (rule to_double_certI[where k = 51 and m = "7007417734157145"]) (simp_all add: round_half_even_eval)

lemma ratio_5: "to_double (724 / 135) = Fin (6038159500400443 / 1125899906842624)"
  by (rule to_double_certI[where k = 50 and m = "6038159500400443"]) (simp_all add: round_half_even_eval)

lemma ratio_6: "to_double (99 / 31) = Fin (1797807915764835 / 562949953421312)"
  by (rule to_double_certI[where k = 51 and m = "7191231663059340"]) (simp_all add: round_half_even_eval)

lemma ratio_7: "to_double (229 / 76) = Fin (6785028385972655 / 2251799813685248)"
  by (rule to_double_certI[where k = 51 and m = "6785028385972655"]) (simp_all add: round_half_even_eval)

lemma ratio_8: "to_double (167 / 92) = Fin (8175012367074705 / 4503599627370496)"
  by (rule to_double_certI[where k = 52 and m = "8175012367074705"]) (simp_all add: round_half_even_eval)

lemma ratio_9: "to_double (238 / 25) = Fin (2679641778285445 / 281474976710656)"
  by (rule to_double_certI[where k = 49 and m = "5359283556570890"]) (simp_all add: round_half_even_eval)

lemma ratio_10: "to_double (158 / 31) = Fin (5738457589714019 / 1125899906842624)"
  by (rule to_double_certI[where k = 50 and m = "5738457589714019"]) (simp_all add: round_half_even_eval)

lemma ratio_11: "to_double (17 / 7) = Fin (5468656690378459 / 2251799813685248)"
  by (rule to_double_certI[where k = 51 and m = "5468656690378459"]) (simp_all add: round_half_even_eval)

lemma merge_left_tables:
  "merge_left vets_active_2023_24 facilities_2023_24 =
     [(''Ontario (ON)'', 5386, PyInt 1760),
      (''Qu'' @ [CHR 0xE9] @ ''bec (QC)'', 3212, PyInt 942),
      (''Alberta (AB)'', 2099, PyInt 608),
      (''Colombie-Britannique (BC)'', 2141, PyInt 688),
      (''Saskatchewan (SK)'', 724, PyInt 135),
      (''Nouvelle-'' @ [CHR 0xC9] @ ''cosse (NS)'', 495, PyInt 155),
      (''Manitoba (MB)'', 458, PyInt 152),
      (''Nouveau-Brunswick (NB)'', 167, PyInt 92),
      ([CHR 0xCE] @ ''le-du-Prince-'' @ [CHR 0xC9] @ ''douard (PE)'', 238, PyInt 25),
      (''Terre-Neuve-et-Labrador (NL)'', 158, PyInt 31),
      (''Yukon (YK)'', 34, PyInt 14),
      (''Territoires du Nord-Ouest (NT)'', 4, PyInt 4)]"
  by (simp add: merge_left_def vets_active_2023_24_def facilities_2023_24_def Quebec_QC_def)

lemma build_df_ca_rows:
  "build_df_ca =
     [\<lparr>Juridiction = ''Ontario (ON)'', Veterinaires_actifs = 5386,
       Etablissements_accredites = PyInt 1760, Ratio = Fin (6891019202561787 / 2251799813685248)\<rparr>,
      \<lparr>Juridiction = ''Qu'' @ [CHR 0xE9] @ ''bec (QC)'', Veterinaires_actifs = 3212,
       Etablissements_accredites = PyInt 942, Ratio = Fin (7678111466621037 / 2251799813685248)\<rparr>,
      \<lparr>Juridiction = ''Alberta (AB)'', Veterinaires_actifs = 2099,
       Etablissements_accredites = PyInt 608, Ratio = Fin (7773894422574565 / 2251799813685248)\<rparr>,
      \<lparr>Juridiction = ''Colombie-Britannique (BC)'', Veterinaires_actifs = 2141,
       Etablissements_accredites = PyInt 688, Ratio = Fin (7007417734157145 / 2251799813685248)\<rparr>,
      \<lparr>Juridiction = ''Saskatchewan (SK)'', Veterinaires_actifs = 724,
       Etablissements_accredites = PyInt 135, Ratio = Fin (6038159500400443 / 1125899906842624)\<rparr>,
      \<lparr>Juridiction = ''Nouvelle-'' @ [CHR 0xC9] @ ''cosse (NS)'', Veterinaires_actifs = 495,
       Etablissements_accredites = PyInt 155, Ratio = Fin (1797807915764835 / 562949953421312)\<rparr>,
      \<lparr>Juridiction = ''Manitoba (MB)'', Veterinaires_actifs = 458,
       Etablissements_accredites = PyInt 152, Ratio = Fin (6785028385972655 / 2251799813685248)\<rparr>,
      \<lparr>Juridiction = ''Nouveau-Brunswick (NB)'', Veterinaires_actifs = 167,
       Etablissements_accredites = PyInt 92, Ratio = Fin (8175012367074705 / 4503599627370496)\<rparr>,
      \<lparr>Juridiction = [CHR 0xCE] @ ''le-du-Prince-'' @ [CHR 0xC9] @ ''douard (PE)'', Veterinaires_actifs = 238,
       Etablissements_accredites = PyInt 25, Ratio = Fin (2679641778285445 / 281474976710656)\<rparr>,
      \<lparr>Juridiction = ''Terre-Neuve-et-Labrador (NL)'', Veterinaires_actifs = 158,
       Etablissements_accredites = PyInt 31, Ratio = Fin (5738457589714019 / 1125899906842624)\<rparr>,
      \<lparr>Juridiction = ''Yukon (YK)'', Veterinaires_actifs = 34,
       Etablissements_accredites = PyInt 14, Ratio = Fin (5468656690378459 / 2251799813685248)\<rparr>,
      \<lparr>Juridiction = ''Territoires du Nord-Ouest (NT)'', Veterinaires_actifs = 4,
       Etablissements_accredites = PyInt 4, Ratio = Fin 1\<rparr>]"
  by (simp add: build_df_ca_def merge_left_tables int_to_float_small ratio_1 ratio_2 ratio_3 ratio_4 ratio_5 ratio_6 ratio_7 ratio_8 ratio_9 ratio_10 ratio_11)

lemma part_1: "to_double (837 / 1402) = Fin (2688668251147721 / 4503599627370496)"
  by (rule to_double_certI[where k = 53 and m = "5377336502295442"]) (simp_all add: round_half_even_eval)

lemma part_2: "to_double (67216706278693025 / 1125899906842624) = Fin (2100522071209157 / 35184372088832)"
  by (rule to_double_certI[where k = 47 and m = "8402088284836628"]) (simp_all add: round_half_even_eval)

lemma part_3: "to_double (10502610356045785 / 17592186044416) = Fin (1312826294505723 / 2199023255552)"
  by (rule to_double_certI[where k = 43 and m = "5251305178022892"]) (simp_all add: round_half_even_eval)

lemma part_4: "round_half_even (1312826294505723 / 2199023255552) = 597"
  by (simp add: round_half_even_eval)

lemma part_5: "to_double (597 / 10) = Fin (4201014027406541 / 70368744177664)"
  by (rule to_double_certI[where k = 47 and m = "8402028054813082"]) (simp_all add: round_half_even_eval)

lemma part_6: "round_half_even (10502610356045785 / 17592186044416) = 597"
  by (simp add: round_half_even_eval)

lemma part_7: "to_double (305 / 2804) = Fin (1959483432736093 / 18014398509481984)"
  by (rule to_double_certI[where k = 56 and m = "7837933730944372"]) (simp_all add: round_half_even_eval)

lemma part_8: "to_double (48987085818402325 / 4503599627370496) = Fin (6123385727300291 / 562949953421312)"
  by (rule to_double_certI[where k = 49 and m = "6123385727300291"]) (simp_all add: round_half_even_eval)

lemma part_9: "to_double (30616928636501455 / 281474976710656) = Fin (1913558039781341 / 17592186044416)"
  by (rule to_double_certI[where k = 46 and m = "7654232159125364"]) (simp_all add: round_half_even_eval)

lemma part_10: "round_half_even (1913558039781341 / 17592186044416) = 109"
  by (simp add: round_half_even_eval)

lemma part_11: "to_double (109 / 10) = Fin (6136154492292301 / 562949953421312)"
  by (rule to_double_certI[where k = 49 and m = "6136154492292301"]) (simp_all add: round_half_even_eval)

lemma part_12: "round_half_even (30616928636501455 / 281474976710656) = 109"
  by (simp add: round_half_even_eval)

lemma part_13: "to_double (43 / 701) = Fin (4420080661385023 / 72057594037927936)"
  by (rule to_double_certI[where k = 57 and m = "8840161322770046"]) (simp_all add: round_half_even_eval)

lemma part_14: "to_double (110502016534625575 / 18014398509481984) = Fin (3453188016707049 / 562949953421312)"
  by (rule to_double_certI[where k = 50 and m = "6906376033414098"]) (simp_all add: round_half_even_eval)

lemma part_15: "to_double (17265940083535245 / 281474976710656) = Fin (4316485020883811 / 70368744177664)"
  by (rule to_double_certI[where k = 47 and m = "8632970041767622"]) (simp_all add: round_half_even_eval)

lemma part_16: "round_half_even (4316485020883811 / 70368744177664) = 61"
  by (simp add: round_half_even_eval)

lemma part_17: "to_double (61 / 10) = Fin (3433994715870003 / 562949953421312)"
  by (rule to_double_certI[where k = 50 and m = "6867989431740006"]) (simp_all add: round_half_even_eval)

lemma part_18: "round_half_even (17265940083535245 / 281474976710656) = 61"
  by (simp add: round_half_even_eval)

lemma part_19: "to_double (149 / 2804) = Fin (3829023363641677 / 72057594037927936)"
  by (rule to_double_certI[where k = 57 and m = "7658046727283354"]) (simp_all add: round_half_even_eval)

lemma part_20: "to_double (95725584091041925 / 18014398509481984) = Fin (747856125711265 / 140737488355328)"
  by (rule to_double_certI[where k = 50 and m = "5982849005690120"]) (simp_all add: round_half_even_eval)

lemma part_21: "to_double (3739280628556325 / 70368744177664) = Fin (3739280628556325 / 70368744177664)"
  by (rule to_double_certI[where k = 47 and m = "7478561257112650"]) (simp_all add: round_half_even_eval)

lemma part_22: "round_half_even (3739280628556325 / 70368744177664) = 53"
  by (simp add: round_half_even_eval)

lemma part_23: "to_double (53 / 10) = Fin (5967269506265907 / 1125899906842624)"
  by (rule to_double_certI[where k = 50 and m = "5967269506265907"]) (simp_all add: round_half_even_eval)

lemma part_24: "to_double (47 / 1402) = Fin (4831250955467351 / 144115188075855872)"
  by (rule to_double_certI[where k = 57 and m = "4831250955467351"]) (simp_all add: round_half_even_eval)

lemma part_25: "to_double (120781273886683775 / 36028797018963968) = Fin (943603702239717 / 281474976710656)"
  by (rule to_double_certI[where k = 51 and m = "7548829617917736"]) (simp_all add: round_half_even_eval)

lemma part_26: "to_double (4718018511198585 / 140737488355328) = Fin (4718018511198585 / 140737488355328)"
  by (rule to_double_certI[where k = 47 and m = "4718018511198585"]) (simp_all add: round_half_even_eval)

lemma part_27: "round_half_even (4718018511198585 / 140737488355328) = 34"
  by (simp add: round_half_even_eval)

lemma part_28: "to_double (17 / 5) = Fin (7656119366529843 / 2251799813685248)"
  by (rule to_double_certI[where k = 51 and m = "7656119366529843"]) (simp_all add: round_half_even_eval)

lemma part_29: "to_double (95 / 2804) = Fin (2441323621113821 / 72057594037927936)"
  by (rule to_double_certI[where k = 57 and m = "4882647242227642"]) (simp_all add: round_half_even_eval)

lemma part_30: "to_double (61033090527845525 / 18014398509481984) = Fin (7629136315980691 / 2251799813685248)"
  by (rule to_double_certI[where k = 51 and m = "7629136315980691"]) (simp_all add: round_half_even_eval)

lemma part_31: "to_double (38145681579903455 / 1125899906842624) = Fin (1192052549371983 / 35184372088832)"
  by (rule to_double_certI[where k = 47 and m = "4768210197487932"]) (simp_all add: round_half_even_eval)

lemma part_32: "round_half_even (1192052549371983 / 35184372088832) = 34"
  by (simp add: round_half_even_eval)

lemma part_33: "round_half_even (38145681579903455 / 1125899906842624) = 34"
  by (simp add: round_half_even_eval)

lemma part_34: "to_double (19 / 701) = Fin (7812235587564227 / 288230376151711744)"
  by (rule to_double_certI[where k = 58 and m = "7812235587564227"]) (simp_all add: round_half_even_eval)

lemma part_35: "to_double (195305889689105675 / 72057594037927936) = Fin (762913631598069 / 281474976710656)"
  by (rule to_double_certI[where k = 51 and m = "6103309052784552"]) (simp_all add: round_half_even_eval)

lemma part_36: "to_double (3814568157990345 / 140737488355328) = Fin (3814568157990345 / 140737488355328)"
  by (rule to_double_certI[where k = 48 and m = "7629136315980690"]) (simp_all add: round_half_even_eval)

lemma part_37: "round_half_even (3814568157990345 / 140737488355328) = 27"
  by (simp add: round_half_even_eval)

lemma part_38: "to_double (27 / 10) = Fin (3039929748475085 / 1125899906842624)"
  by (rule to_double_certI[where k = 51 and m = "6079859496950170"]) (simp_all add: round_half_even_eval)

lemma part_39: "to_double (21 / 1402) = Fin (4317288087864441 / 288230376151711744)"
  by (rule to_double_certI[where k = 59 and m = "8634576175728882"]) (simp_all add: round_half_even_eval)

lemma part_40: "to_double (107932202196611025 / 72057594037927936) = Fin (6745762637288189 / 4503599627370496)"
  by (rule to_double_certI[where k = 52 and m = "6745762637288189"]) (simp_all add: round_half_even_eval)

lemma part_41: "to_double (33728813186440945 / 2251799813685248) = Fin (2108050824152559 / 140737488355328)"
  by (rule to_double_certI[where k = 49 and m = "8432203296610236"]) (simp_all add: round_half_even_eval)

lemma part_42: "round_half_even (2108050824152559 / 140737488355328) = 15"
  by (simp add: round_half_even_eval)

lemma part_43: "to_double (3 / 2) = Fin (3 / 2)"
  by (rule to_double_certI[where k = 52 and m = "6755399441055744"]) (simp_all add: round_half_even_eval)

lemma part_44: "round_half_even (33728813186440945 / 2251799813685248) = 15"
  by (simp add: round_half_even_eval)

lemma part_45: "to_double (15 / 2804) = Fin (1541888602808729 / 288230376151711744)"
  by (rule to_double_certI[where k = 60 and m = "6167554411234916"]) (simp_all add: round_half_even_eval)

lemma part_46: "to_double (38547215070218225 / 72057594037927936) = Fin (2409200941888639 / 4503599627370496)"
  by (rule to_double_certI[where k = 53 and m = "4818401883777278"]) (simp_all add: round_half_even_eval)

lemma part_47: "to_double (12046004709443195 / 2251799813685248) = Fin (3011501177360799 / 562949953421312)"
  by (rule to_double_certI[where k = 50 and m = "6023002354721598"]) (simp_all add: round_half_even_eval)

lemma part_48: "round_half_even (3011501177360799 / 562949953421312) = 5"
  by (simp add: round_half_even_eval)

lemma part_49: "to_double (1 / 2) = Fin (1 / 2)"
  by (rule to_double_certI[where k = 53 and m = "4503599627370496"]) (simp_all add: round_half_even_eval)

lemma part_50: "round_half_even (12046004709443195 / 2251799813685248) = 5"
  by (simp add: round_half_even_eval)

lemma part_51: "to_double (1 / 2804) = Fin (1644681176329311 / 4611686018427387904)"
  by (rule to_double_certI[where k = 64 and m = "6578724705317244"]) (simp_all add: round_half_even_eval)

lemma part_52: "to_double (41117029408232775 / 1152921504606846976) = Fin (5139628676029097 / 144115188075855872)"
  by (rule to_double_certI[where k = 57 and m = "5139628676029097"]) (simp_all add: round_half_even_eval)

lemma part_53: "to_double (25698143380145485 / 72057594037927936) = Fin (6424535845036371 / 18014398509481984)"
  by (rule to_double_certI[where k = 54 and m = "6424535845036371"]) (simp_all add: round_half_even_eval)

lemma part_54: "round_half_even (6424535845036371 / 18014398509481984) = 0"
  by (simp add: round_half_even_eval)

lemma part_55: "round_half_even (25698143380145485 / 72057594037927936) = 0"
  by (simp add: round_half_even_eval)

lemma build_qc_practice_main_rows:
  "build_qc_practice_main =
     [\<lparr>Pratique_principale = ''Animaux de compagnie'', Effectif = 1674, Part = Fin (4201014027406541 / 70368744177664)\<rparr>,
      \<lparr>Pratique_principale = ''Grands animaux'', Effectif = 305, Part = Fin (6136154492292301 / 562949953421312)\<rparr>,
      \<lparr>Pratique_principale = ''Sant'' @ [CHR 0xE9] @ '' publique'', Effectif = 172, Part = Fin (3433994715870003 / 562949953421312)\<rparr>,
      \<lparr>Pratique_principale = ''Services-conseils'', Effectif = 149, Part = Fin (5967269506265907 / 1125899906842624)\<rparr>,
      \<lparr>Pratique_principale = [CHR 0xC9] @ ''quins'', Effectif = 94, Part = Fin (7656119366529843 / 2251799813685248)\<rparr>,
      \<lparr>Pratique_principale = ''Enseignement'', Effectif = 95, Part = Fin (7656119366529843 / 2251799813685248)\<rparr>,
      \<lparr>Pratique_principale = ''Administration'', Effectif = 76, Part = Fin (3039929748475085 / 1125899906842624)\<rparr>,
      \<lparr>Pratique_principale = ''Petits ruminants'', Effectif = 0, Part = Fin 0\<rparr>,
      \<lparr>Pratique_principale = ''Grandes populations animales'', Effectif = 42, Part = Fin (3 / 2)\<rparr>,
      \<lparr>Pratique_principale = ''Faune et zoos'', Effectif = 15, Part = Fin (1 / 2)\<rparr>,
      \<lparr>Pratique_principale = ''Animaux de bassecour'', Effectif = 1, Part = Fin 0\<rparr>]"
  by (simp add: build_qc_practice_main_def qc_practice_effectifs_def Sante_publique_def part_pct_def
      np_round_def QC_OMVQ_MEMBERS_TOTAL_def int_to_float_small to_double_numeral
      part_1 part_2 part_3 part_4 part_5 part_6 part_7 part_8 part_9 part_10 part_11 part_12 part_13 part_14 part_15 part_16 part_17 part_18 part_19 part_20 part_21 part_22 part_23 part_24 part_25 part_26 part_27 part_28 part_29 part_30 part_31 part_32 part_33 part_34 part_35 part_36 part_37 part_38 part_39 part_40 part_41 part_42 part_43 part_44 part_45 part_46 part_47 part_48 part_49 part_50 part_51 part_52 part_53 part_54 part_55)

lemma tax_1: "to_double (8731 / 10) = Fin (7679868817689805 / 8796093022208)"
  by (rule to_double_certI[where k = 43 and m = "7679868817689805"]) (simp_all add: round_half_even_eval)

lemma tax_2: "to_double (7973 / 10) = Fin (3506562483303219 / 4398046511104)"
  by (rule to_double_certI[where k = 43 and m = "7013124966606438"]) (simp_all add: round_half_even_eval)

lemma tax_3: "to_double (791 / 5) = Fin (2783083832226611 / 17592186044416)"
  by (rule to_double_certI[where k = 45 and m = "5566167664453222"]) (simp_all add: round_half_even_eval)

lemma tax_4: "to_double (14692993784296243 / 8796093022208) = Fin (3673248446074061 / 2199023255552)"
  by (rule to_double_certI[where k = 42 and m = "7346496892148122"]) (simp_all add: round_half_even_eval)

lemma tax_5: "to_double (32169071400819099 / 17592186044416) = Fin (8042267850204775 / 4398046511104)"
  by (rule to_double_certI[where k = 42 and m = "8042267850204775"]) (simp_all add: round_half_even_eval)

lemma tax_6: "to_double (9143 / 5) = Fin (4021133925102387 / 2199023255552)"
  by (rule to_double_certI[where k = 42 and m = "8042267850204774"]) (simp_all add: round_half_even_eval)

lemma tax_sum_value:
  "float_add (float_add CAN_TAX_FED_MCAD CAN_TAX_PROV_MCAD) CAN_TAX_MUNI_MCAD = Fin (8042267850204775 / 4398046511104)"
  by (simp add: CAN_TAX_FED_MCAD_def CAN_TAX_PROV_MCAD_def CAN_TAX_MUNI_MCAD_def float_lit_def tax_1 tax_2 tax_3 tax_4 tax_5 tax_6)

lemma scen_1: "to_double (1 / 5) = Fin (3602879701896397 / 18014398509481984)"
  by (rule to_double_certI[where k = 55 and m = "7205759403792794"]) (simp_all add: round_half_even_eval)

lemma scen_2: "to_double (1696956339593202987 / 9007199254740992) = Fin (6628735701535949 / 35184372088832)"
  by (rule to_double_certI[where k = 45 and m = "6628735701535949"]) (simp_all add: round_half_even_eval)

lemma scen_3: "to_double (26514942806143795 / 35184372088832) = Fin (6628735701535949 / 8796093022208)"
  by (rule to_double_certI[where k = 43 and m = "6628735701535949"]) (simp_all add: round_half_even_eval)

lemma scen_4: "to_double (6628735701535949 / 35184372088832) = Fin (6628735701535949 / 35184372088832)"
  by (rule to_double_certI[where k = 45 and m = "6628735701535949"]) (simp_all add: round_half_even_eval)

lemma scen_5: "to_double (106383467447792435 / 35184372088832) = Fin (6648966715487027 / 2199023255552)"
  by (rule to_double_certI[where k = 41 and m = "6648966715487027"]) (simp_all add: round_half_even_eval)

lemma scen_6: "to_double (942 / 5) = Fin (6628735701535949 / 35184372088832)"
  by (rule to_double_certI[where k = 45 and m = "6628735701535949"]) (simp_all add: round_half_even_eval)

lemma scen_7: "to_double (15118 / 5) = Fin (6648966715487027 / 2199023255552)"
  by (rule to_double_certI[where k = 41 and m = "6648966715487027"]) (simp_all add: round_half_even_eval)

lemmas fmt_eval =
  fmt_fixed.simps fmt_num_fixed_def fmt_int_grouped_def fmt_int_def replace_comma_def grouped_def
  zero_pad_def digits.simps round_half_even_eval

lemma estimate_quebec_20:
  "estimate (Fin 3212) (Fin 942) (Fin 20) =
     \<lparr>solo_facilities = Fin (6628735701535949 / 35184372088832), multi_facilities = Fin (6628735701535949 / 8796093022208),
      solo_vets_est = Fin (6628735701535949 / 35184372088832), multi_vets_est = PyFloat (Fin (6648966715487027 / 2199023255552))\<rparr>"
  by (simp add: estimate_def Let_def float_lit_100 float_lit_1 float_sub_def py_max_def num_gt_def
      scen_1 scen_2 scen_3 scen_4 scen_5 scen_6 scen_7)

section \<open>The claims\<close>

lemma is_double_of_int:
  assumes "\<bar>n\<bar> \<le> 2 ^ 53"
  shows "is_double (Fin (of_int n))"
proof -
  have "rat_of_int \<bar>n\<bar> \<le> of_int (2 ^ 53)" using assms by (simp only: of_int_le_iff)
  then have "\<bar>rat_of_int n\<bar> \<le> 2 ^ 53" by simp
  with max_double_ge have "\<bar>rat_of_int n\<bar> \<le> max_double" by linarith
  then show ?thesis using round_to_double_of_int[OF assms] by (simp add: is_double_def)
qed

lemma is_double_numeral:
  assumes "(numeral k :: int) \<le> 2 ^ 53"
  shows "is_double (Fin (numeral k))"
  using is_double_of_int[of "numeral k"] assms by simp

lemma module_state_simps [simp]:
  "df_ca module_state = build_df_ca" "qc_practice_main module_state = build_qc_practice_main"
  by (simp_all add: module_state_def)

text \<open>
  C7: every one of the 12 entries of the accredited-facilities table is at least 4, so in every
  row of the Canada table the divisor of the ratio is a non-zero count and the ratio is a
  finite number.
\<close>

theorem facilities_at_least_four:
  "length facilities_2023_24 = 12 \<and>
   list_all (\<lambda>(k, n). 4 \<le> n) facilities_2023_24 \<and>
   list_all (\<lambda>r. \<exists>n. Etablissements_accredites r = PyInt n \<and> 4 \<le> n \<and>
                   num_to_float (Etablissements_accredites r) = Fin (of_int n) \<and>
                   is_finite (Ratio r)) (df_ca module_state)"
  by (simp add: facilities_2023_24_def build_df_ca_rows int_to_float_small)

text \<open>
  C5: the Canada table has the 12 jurisdictions of the vets table, in its order, and in every
  row the ratio is the double quotient of the active vets and the accredited facilities that
  the two source tables give for the row's jurisdiction. The ratio of Quebec is the
  quotient 3212 / 942, which prints as 3.41 with two decimals.
\<close>

theorem ratio_column_is_quotient:
  "map Juridiction (df_ca module_state) = map fst vets_active_2023_24 \<and>
   length (df_ca module_state) = 12 \<and>
   list_all (\<lambda>r. \<exists>v f. map_of vets_active_2023_24 (Juridiction r) = Some v \<and>
                     map_of facilities_2023_24 (Juridiction r) = Some f \<and>
                     Ratio r = to_double (of_int v / of_int f)) (df_ca module_state) \<and>
   (\<exists>r. find (\<lambda>r. Juridiction r = Quebec_QC) (df_ca module_state) = Some r \<and>
        Ratio r = to_double (3212 / 942) \<and> fmt_fixed False 2 (Ratio r) = ''3.41'')"
  by (simp add: build_df_ca_rows vets_active_2023_24_def facilities_2023_24_def Quebec_QC_def
      ratio_1 ratio_2 ratio_3 ratio_4 ratio_5 ratio_6 ratio_7 ratio_8 ratio_9 ratio_10 ratio_11 fmt_eval)

text \<open>
  C6: the metric of the total tax revenue shows 1 828.6, the exact sum of the three decimal
  components 873.1, 797.3 and 158.2; it is the eighth element of the Canada panel. (The
  double sum itself is not the double of the literal 1828.6; one decimal hides the difference.)
\<close>

theorem tax_total_displayed:
  "tax_total_metric = Metric ''1 828.6'' \<and>
   Metric (replace_comma (fmt_fixed True 1 (Fin (873.1 + 797.3 + 158.2)))) = tax_total_metric \<and>
   (873.1 + 797.3 + 158.2 :: rat) = 1828.6 \<and>
   float_add (float_add CAN_TAX_FED_MCAD CAN_TAX_PROV_MCAD) CAN_TAX_MUNI_MCAD \<noteq> float_lit 1828.6 \<and>
   (\<exists>els. fst (tab_ca s) = Inr els \<and> els ! 7 = tax_total_metric)"
  by (simp add: tax_total_metric_def tax_sum_value fmt_eval tab_ca_def int_truediv_def
      CAN_ACCREDITED_FACILITIES_2023_24_def float_lit_def tax_1 tax_2 tax_3 tax_4 tax_5 tax_6)

text \<open>
  C4: in each of the 11 rows of the practice-type table the share is
  \<^verbatim>\<open>round(headcount / 2804 * 100, 1)\<close>, with Python's correctly rounded \<^verbatim>\<open>round\<close> (the code
  rounds with numpy's \<^verbatim>\<open>round\<close>, which agrees on these rows); the companion-animals row has
  headcount 1674 and share 59.7.
\<close>

theorem part_is_rounded_share:
  "length (qc_practice_main module_state) = 11 \<and>
   QC_OMVQ_MEMBERS_TOTAL = 2804 \<and>
   list_all (\<lambda>r. Part r = py_round (float_mul (float_div (int_to_float (Effectif r))
                                   (int_to_float 2804)) (int_to_float 100)) 1)
            (qc_practice_main module_state) \<and>
   (\<exists>r. find (\<lambda>r. Pratique_principale r = ''Animaux de compagnie'') (qc_practice_main module_state)
          = Some r \<and> Effectif r = 1674 \<and> Part r = float_lit 59.7)"
  by (simp add: build_qc_practice_main_rows QC_OMVQ_MEMBERS_TOTAL_def int_to_float_small
      to_double_numeral float_lit_def part_1 part_2 part_3 part_4 part_5 part_6 part_7 part_8 part_9 part_10 part_11 part_12 part_13 part_14 part_15 part_16 part_17 part_18 part_19 part_20 part_21 part_22 part_23 part_24 part_25 part_26 part_27 part_28 part_29 part_30 part_31 part_32 part_33 part_34 part_35 part_36 part_37 part_38 part_39 part_40 part_41 part_42 part_43 part_44 part_45 part_46 part_47 part_48 part_49 part_50 part_51 part_52 part_53 part_54 part_55)

lemma qc_parts:
  "map Part (qc_practice_main module_state) =
     map Fin [4201014027406541 / 70368744177664,
        6136154492292301 / 562949953421312,
        3433994715870003 / 562949953421312,
        5967269506265907 / 1125899906842624,
        7656119366529843 / 2251799813685248,
        7656119366529843 / 2251799813685248,
        3039929748475085 / 1125899906842624,
        0,
        3 / 2,
        1 / 2,
        0]"
  by (simp add: build_qc_practice_main_rows)

text \<open>
  C3, as stated, fails: the 11 shares are the doubles listed, and their sum is not within 0.5
  of 100.
\<close>

theorem shares_sum_not_100:
  "map Part (qc_practice_main module_state) =
     map Fin [4201014027406541 / 70368744177664,
        6136154492292301 / 562949953421312,
        3433994715870003 / 562949953421312,
        5967269506265907 / 1125899906842624,
        7656119366529843 / 2251799813685248,
        7656119366529843 / 2251799813685248,
        3039929748475085 / 1125899906842624,
        0,
        3 / 2,
        1 / 2,
        0] \<and>
   \<not> \<bar>sum_list [4201014027406541 / 70368744177664,
        6136154492292301 / 562949953421312,
        3433994715870003 / 562949953421312,
        5967269506265907 / 1125899906842624,
        7656119366529843 / 2251799813685248,
        7656119366529843 / 2251799813685248,
        3039929748475085 / 1125899906842624,
        0,
        3 / 2,
        1 / 2,
        0] - (100::rat)\<bar> \<le> 1 / 2"
  by (simp add: build_qc_practice_main_rows)

text \<open>
  C3, amended: the shares sum to 93.5 within 0.5 (in fact within a billionth), because the
  11 headcounts sum to 2623 while every share is taken of the 2804 members.
\<close>

theorem shares_sum_93_5:
  "\<exists>vs. map Part (qc_practice_main module_state) = map Fin vs \<and>
        \<bar>sum_list vs - 93.5\<bar> \<le> 1 / 2 \<and> \<bar>sum_list vs - 93.5\<bar> \<le> 1 / 10 ^ 9 \<and>
        sum_list (map Effectif (qc_practice_main module_state)) = 2623 \<and>
        QC_OMVQ_MEMBERS_TOTAL = 2804"
proof -
  have "\<bar>sum_list [4201014027406541 / 70368744177664,
        6136154492292301 / 562949953421312,
        3433994715870003 / 562949953421312,
        5967269506265907 / 1125899906842624,
        7656119366529843 / 2251799813685248,
        7656119366529843 / 2251799813685248,
        3039929748475085 / 1125899906842624,
        0,
        3 / 2,
        1 / 2,
        0] - (93.5::rat)\<bar> \<le> 1 / 10 ^ 9"
    by simp
  moreover have "sum_list (map Effectif (qc_practice_main module_state)) = 2623"
    by (simp add: build_qc_practice_main_rows)
  ultimately show ?thesis
    using qc_parts by (intro exI[of _ "[4201014027406541 / 70368744177664,
        6136154492292301 / 562949953421312,
        3433994715870003 / 562949953421312,
        5967269506265907 / 1125899906842624,
        7656119366529843 / 2251799813685248,
        7656119366529843 / 2251799813685248,
        3039929748475085 / 1125899906842624,
        0,
        3 / 2,
        1 / 2,
        0]"]) (simp add: QC_OMVQ_MEMBERS_TOTAL_def)
qed

text \<open>
  C1: for floats \<open>active_vets \<ge> 0\<close>, \<open>facilities \<ge> 0\<close> and \<open>solo_share_pct\<close> in \<open>[0, 100]\<close> the
  estimator returns \<open>solo_facilities = facilities * (solo_share_pct / 100)\<close> (each operation
  rounded to a double), \<open>solo_vets = solo_facilities\<close> and
  \<open>multi_vets = max (active_vets - solo_vets) 0\<close>; for Quebec (3212 active vets, 942
  facilities) and a share of 20 it returns the floats 188.4, 188.4 and 3023.6.
\<close>

theorem estimate_matches_spec:
  assumes "is_double (Fin active_vets)" "is_double (Fin facilities)" "is_double (Fin solo_share_pct)"
    and "0 \<le> active_vets" "0 \<le> facilities" "0 \<le> solo_share_pct" "solo_share_pct \<le> 100"
  shows "solo_facilities (estimate (Fin active_vets) (Fin facilities) (Fin solo_share_pct))
           = Fin (spec_solo_facilities facilities solo_share_pct) \<and>
         solo_vets_est (estimate (Fin active_vets) (Fin facilities) (Fin solo_share_pct))
           = solo_facilities (estimate (Fin active_vets) (Fin facilities) (Fin solo_share_pct)) \<and>
         num_val (multi_vets_est (estimate (Fin active_vets) (Fin facilities) (Fin solo_share_pct)))
           = Fin (spec_multi_vets active_vets (spec_solo_facilities facilities solo_share_pct)) \<and>
         solo_facilities (estimate (int_to_float 3212) (int_to_float 942) (int_to_float 20))
           = float_lit 188.4 \<and>
         solo_vets_est (estimate (int_to_float 3212) (int_to_float 942) (int_to_float 20))
           = float_lit 188.4 \<and>
         multi_vets_est (estimate (int_to_float 3212) (int_to_float 942) (int_to_float 20))
           = PyFloat (float_lit 3023.6)"
proof -
  have v: "active_vets \<le> max_double" and f: "facilities \<le> max_double"
    using is_double_bound[OF assms(1)] is_double_bound[OF assms(2)] by linarith+
  note u = estimate_unfold[OF assms(4) v assms(5) f assms(6,7)]
  have "num_val (multi_vets_est (estimate (Fin active_vets) (Fin facilities) (Fin solo_share_pct)))
          = Fin (spec_multi_vets active_vets (spec_solo_facilities facilities solo_share_pct))"
    unfolding u by (simp add: spec_multi_vets_def max_def)
  moreover have "float_lit 188.4 = Fin (6628735701535949 / 35184372088832)" "float_lit 3023.6 = Fin (6648966715487027 / 2199023255552)"
    by (simp_all add: float_lit_def scen_1 scen_2 scen_3 scen_4 scen_5 scen_6 scen_7)
  ultimately show ?thesis
    unfolding u by (simp add: int_to_float_small estimate_quebec_20)
qed

theorem estimate_matches_spec_witness:
  "is_double (Fin 3212) \<and> is_double (Fin 942) \<and> is_double (Fin 20) \<and>
   solo_facilities (estimate (Fin 3212) (Fin 942) (Fin 20)) = Fin (spec_solo_facilities 942 20) \<and>
   solo_vets_est (estimate (Fin 3212) (Fin 942) (Fin 20))
     = solo_facilities (estimate (Fin 3212) (Fin 942) (Fin 20)) \<and>
   num_val (multi_vets_est (estimate (Fin 3212) (Fin 942) (Fin 20)))
     = Fin (spec_multi_vets 3212 (spec_solo_facilities 942 20))"
proof -
  have d: "is_double (Fin 3212)" "is_double (Fin 942)" "is_double (Fin 20)"
    by (rule is_double_numeral, simp)+
  from estimate_matches_spec[OF d] d show ?thesis by simp
qed

text \<open>
  C10: for every row of the Canada table and every value of the slider, the estimated solo
  vets are a finite number strictly below the row's active vets, and the estimate of the
  multi-vet structures is the float difference itself (not the int 0 of the clamp), strictly
  positive.
\<close>

theorem clamp_never_fires:
  "\<forall>r \<in> set (df_ca module_state). \<forall>p \<in> set slider_values.
     \<exists>s m. solo_vets_est (estimate (int_to_float (Veterinaires_actifs r))
                   (num_to_float (Etablissements_accredites r)) (int_to_float p)) = Fin s \<and>
           s < of_int (Veterinaires_actifs r) \<and>
           multi_vets_est (estimate (int_to_float (Veterinaires_actifs r))
                   (num_to_float (Etablissements_accredites r)) (int_to_float p)) = PyFloat (Fin m) \<and>
           0 < m"
proof (intro ballI)
  fix r p
  assume r: "r \<in> set (df_ca module_state)" and p: "p \<in> set slider_values"
  from r obtain v f where vf: "Veterinaires_actifs r = v" "Etablissements_accredites r = PyInt f"
    "0 \<le> f" "13 * f < 16 * v" "v \<le> 2 ^ 40"
    by (auto simp: build_df_ca_rows)
  from no_clamp[OF vf(3,4,5) slider_values_range[OF p]] obtain s m where
    "estimate (int_to_float v) (int_to_float f) (int_to_float p)
       = \<lparr>solo_facilities = Fin s, multi_facilities = Fin (round_to_double (of_int f - s)),
          solo_vets_est = Fin s, multi_vets_est = PyFloat (Fin m)\<rparr>" "s < of_int v" "0 < m"
    by blast
  then show "\<exists>s m. solo_vets_est (estimate (int_to_float (Veterinaires_actifs r))
                   (num_to_float (Etablissements_accredites r)) (int_to_float p)) = Fin s \<and>
           s < of_int (Veterinaires_actifs r) \<and>
           multi_vets_est (estimate (int_to_float (Veterinaires_actifs r))
                   (num_to_float (Etablissements_accredites r)) (int_to_float p)) = PyFloat (Fin m) \<and>
           0 < m"
    by (simp add: vf(1,2))
qed

theorem clamp_never_fires_witness:
  "\<lparr>Juridiction = Quebec_QC, Veterinaires_actifs = 3212, Etablissements_accredites = PyInt 942,
     Ratio = to_double (3212 / 942)\<rparr> \<in> set (df_ca module_state) \<and>
   20 \<in> set slider_values \<and>
   (\<exists>s m. solo_vets_est (estimate (int_to_float 3212) (int_to_float 942) (int_to_float 20)) = Fin s \<and>
          s < 3212 \<and>
          multi_vets_est (estimate (int_to_float 3212) (int_to_float 942) (int_to_float 20))
            = PyFloat (Fin m) \<and> 0 < m)"
proof -
  let ?r = "\<lparr>Juridiction = Quebec_QC, Veterinaires_actifs = 3212,
             Etablissements_accredites = PyInt 942, Ratio = to_double (3212 / 942)\<rparr>"
  have r: "?r \<in> set (df_ca module_state)"
    by (simp add: build_df_ca_rows Quebec_QC_def ratio_1 ratio_2 ratio_3 ratio_4 ratio_5 ratio_6 ratio_7 ratio_8 ratio_9 ratio_10 ratio_11)
  have p: "20 \<in> set slider_values"
    by (simp add: slider_values_def image_iff)
  from clamp_never_fires r p show ?thesis by fastforce
qed

lemma share_error:
  fixes p :: int
  assumes "0 \<le> p" "p \<le> 100"
  shows "\<bar>round_to_double (of_int p / 100) - of_int p / 100\<bar> \<le> 1 / 2 ^ 50"
proof -
  have "\<bar>rat_of_int p / 100\<bar> \<le> 1" using assms by simp
  then have "\<bar>rat_of_int p / 100\<bar> * 2 ^ 50 \<le> 1 * 2 ^ 50" by (intro mult_right_mono) auto
  then have "\<bar>rat_of_int p / 100\<bar> * 2 ^ 50 \<le> 2 ^ 52" by simp
  then show ?thesis by (intro round_to_double_abs_err) auto
qed

lemma error_2_20:
  assumes "\<bar>a\<bar> \<le> 2 ^ 30"
  shows "\<bar>round_to_double a - a\<bar> \<le> 1 / 2 ^ 20"
proof -
  have "\<bar>a\<bar> * 2 ^ 20 \<le> 2 ^ 30 * 2 ^ 20" using assms by (intro mult_right_mono) auto
  then have "\<bar>a\<bar> * 2 ^ 20 \<le> 2 ^ 52" by simp
  then show ?thesis by (intro round_to_double_abs_err) auto
qed

lemma round_to_double_numeral:
  assumes "(numeral k :: int) \<le> 2 ^ 53"
  shows "round_to_double (numeral k) = numeral k"
  using round_to_double_of_int[of "numeral k"] assms by simp

lemma strict_decrease:
  fixes v f :: rat and p1 p2 :: int
  assumes "0 \<le> v" "v \<le> 2 ^ 30" "1 \<le> f" "f \<le> 2 ^ 30" "0 \<le> p1" "p1 < p2" "p2 \<le> 100"
  shows "round_to_double (v - spec_solo_facilities f (of_int p2))
       < round_to_double (v - spec_solo_facilities f (of_int p1))"
proof -
  define c1 where "c1 = round_to_double (rat_of_int p1 / 100)"
  define c2 where "c2 = round_to_double (rat_of_int p2 / 100)"
  define s1 where "s1 = round_to_double (f * c1)"
  define s2 where "s2 = round_to_double (f * c2)"
  have p1: "0 \<le> rat_of_int p1" "rat_of_int p1 \<le> 100" using assms(5,6,7) by simp_all
  have p2: "0 \<le> rat_of_int p2" "rat_of_int p2 \<le> 100" using assms(5,6,7) by simp_all
  have "p1 + 1 \<le> p2" using assms(6) by simp
  then have "rat_of_int (p1 + 1) \<le> of_int p2" by (simp only: of_int_le_iff)
  then have gap: "rat_of_int p1 / 100 + 1 / 100 \<le> rat_of_int p2 / 100" by simp
  have e1: "\<bar>c1 - of_int p1 / 100\<bar> \<le> 1 / 2 ^ 50"
    unfolding c1_def using assms(5,6,7) by (intro share_error) auto
  have e2: "\<bar>c2 - of_int p2 / 100\<bar> \<le> 1 / 2 ^ 50"
    unfolding c2_def using assms(5,6,7) by (intro share_error) auto
  have c1b: "0 \<le> c1" "c1 \<le> 1" unfolding c1_def using share_fraction[OF p1] by simp_all
  have c2b: "0 \<le> c2" "c2 \<le> 1" unfolding c2_def using share_fraction[OF p2] by simp_all
  have cgap: "1 / 100 - 2 / 2 ^ 50 \<le> c2 - c1" using e1 e2 gap by linarith
  have f0: "0 \<le> f" using assms(3) by simp
  have fc1: "0 \<le> f * c1" "f * c1 \<le> 2 ^ 30"
    using f0 c1b assms(4) mult_mono[of f "2 ^ 30" c1 1] by simp_all
  have fc2: "0 \<le> f * c2" "f * c2 \<le> 2 ^ 30"
    using f0 c2b assms(4) mult_mono[of f "2 ^ 30" c2 1] by simp_all
  have es1: "\<bar>s1 - f * c1\<bar> \<le> 1 / 2 ^ 20" unfolding s1_def using fc1 by (intro error_2_20) simp
  have es2: "\<bar>s2 - f * c2\<bar> \<le> 1 / 2 ^ 20" unfolding s2_def using fc2 by (intro error_2_20) simp
  have "0 \<le> c2 - c1" using cgap by simp
  then have "1 * (c2 - c1) \<le> f * (c2 - c1)" using assms(3) by (intro mult_right_mono) auto
  then have fgap: "c2 - c1 \<le> f * c2 - f * c1" by (simp add: algebra_simps)
  have s1b: "0 \<le> s1" "s1 \<le> 2 ^ 30"
    unfolding s1_def using round_to_double_nonneg[OF fc1(1)] round_to_double_mono[OF fc1(2)]
    by (simp_all add: round_to_double_numeral)
  have s2b: "0 \<le> s2" "s2 \<le> 2 ^ 30"
    unfolding s2_def using round_to_double_nonneg[OF fc2(1)] round_to_double_mono[OF fc2(2)]
    by (simp_all add: round_to_double_numeral)
  have ed1: "\<bar>round_to_double (v - s1) - (v - s1)\<bar> \<le> 1 / 2 ^ 20"
    using assms(1,2) s1b by (intro error_2_20) (simp add: abs_le_iff)
  have ed2: "\<bar>round_to_double (v - s2) - (v - s2)\<bar> \<le> 1 / 2 ^ 20"
    using assms(1,2) s2b by (intro error_2_20) (simp add: abs_le_iff)
  have num: "4 / 2 ^ 20 + 2 / 2 ^ 50 < (1::rat) / 100" by simp
  have "round_to_double (v - s2) < round_to_double (v - s1)"
    using ed1 ed2 es1 es2 fgap cgap num by linarith
  then show ?thesis
    by (simp add: spec_solo_facilities_def s1_def s2_def c1_def c2_def)
qed

lemma weak_decrease:
  fixes v f q1 q2 :: rat
  assumes "0 \<le> f" "q1 \<le> q2"
  shows "round_to_double (v - spec_solo_facilities f q2) \<le> round_to_double (v - spec_solo_facilities f q1)"
proof -
  have "round_to_double (q1 / 100) \<le> round_to_double (q2 / 100)"
    using assms(2) by (intro round_to_double_mono) (simp add: divide_right_mono)
  then have "f * round_to_double (q1 / 100) \<le> f * round_to_double (q2 / 100)"
    using assms(1) by (intro mult_left_mono)
  then have "spec_solo_facilities f q1 \<le> spec_solo_facilities f q2"
    unfolding spec_solo_facilities_def by (rule round_to_double_mono)
  then show ?thesis by (intro round_to_double_mono) simp
qed

lemma multi_vets_value:
  assumes "0 \<le> v" "v \<le> max_double" "0 \<le> f" "f \<le> max_double" "0 \<le> p" "p \<le> 100"
  shows "num_val (multi_vets_est (estimate (Fin v) (Fin f) (Fin p)))
         = Fin (max (round_to_double (v - spec_solo_facilities f p)) 0)"
  unfolding estimate_unfold[OF assms] by (simp add: max_def)

lemma two_30_le_max_double: "2 ^ 30 \<le> max_double"
  using max_double_ge by simp

lemma tiny_1: "to_double (1 / 1152921504606846976) = Fin (1 / 1152921504606846976)"
  by (rule to_double_certI[where k = 112 and m = "4503599627370496"]) (simp_all add: round_half_even_eval)

lemma tiny_2: "to_double (1152921504606846975 / 1152921504606846976) = Fin 1"
  by (rule to_double_certI[where k = 53 and m = "9007199254740992"]) (simp_all add: round_half_even_eval)

text \<open>
  C2, as stated, fails. With no facilities the estimate does not depend on the share: for 1
  active vet and 0 facilities it is 1 at share 0 and at share 100. With a positive but tiny
  number of facilities the solo vets are lost in the rounding of the difference: for
  \<open>1 / 2 ^ 60\<close> facilities the estimate is again 1 at both shares.
\<close>

theorem multi_vets_not_strict:
  "num_gt (multi_vets_est (estimate (Fin 1) (Fin 0) (Fin 0))) (PyInt 0) \<and>
   \<not> num_gt (multi_vets_est (estimate (Fin 1) (Fin 0) (Fin 0)))
            (multi_vets_est (estimate (Fin 1) (Fin 0) (Fin 100))) \<and>
   num_gt (multi_vets_est (estimate (Fin 1) (Fin (1 / 2 ^ 60)) (Fin 0))) (PyInt 0) \<and>
   \<not> num_gt (multi_vets_est (estimate (Fin 1) (Fin (1 / 2 ^ 60)) (Fin 0)))
            (multi_vets_est (estimate (Fin 1) (Fin (1 / 2 ^ 60)) (Fin 100)))"
  by (simp add: estimate_def Let_def float_lit_100 float_lit_1 float_sub_def py_max_def num_gt_def
      tiny_1 tiny_2)

text \<open>
  C2, amended. For floats \<open>active_vets \<ge> 0\<close> and \<open>facilities \<ge> 0\<close> the estimate of the multi-vet
  structures never increases with the share, over all of \<open>[0, 100]\<close>. It decreases strictly
  until the clamp when there is at least one facility, both counts are at most \<open>2 ^ 30\<close> and
  the shares are whole numbers: for \<open>p1 < p2\<close>, if the estimate at \<open>p1\<close> is positive, the
  estimate at \<open>p2\<close> is smaller.
\<close>

theorem multi_vets_decreasing:
  fixes v f q1 q2 :: rat and p1 p2 :: int
  shows "(0 \<le> v \<and> v \<le> max_double \<and> 0 \<le> f \<and> f \<le> max_double \<and> 0 \<le> q1 \<and> q1 \<le> q2 \<and> q2 \<le> 100
          \<longrightarrow> \<not> num_gt (multi_vets_est (estimate (Fin v) (Fin f) (Fin q2)))
                         (multi_vets_est (estimate (Fin v) (Fin f) (Fin q1)))) \<and>
         (0 \<le> v \<and> v \<le> 2 ^ 30 \<and> 1 \<le> f \<and> f \<le> 2 ^ 30 \<and> 0 \<le> p1 \<and> p1 < p2 \<and> p2 \<le> 100 \<and>
          num_gt (multi_vets_est (estimate (Fin v) (Fin f) (int_to_float p1))) (PyInt 0)
          \<longrightarrow> num_gt (multi_vets_est (estimate (Fin v) (Fin f) (int_to_float p1)))
                     (multi_vets_est (estimate (Fin v) (Fin f) (int_to_float p2))))"
proof (intro conjI impI)
  assume a: "0 \<le> v \<and> v \<le> max_double \<and> 0 \<le> f \<and> f \<le> max_double \<and> 0 \<le> q1 \<and> q1 \<le> q2 \<and> q2 \<le> 100"
  then have m1: "num_val (multi_vets_est (estimate (Fin v) (Fin f) (Fin q1)))
                 = Fin (max (round_to_double (v - spec_solo_facilities f q1)) 0)"
    by (intro multi_vets_value) auto
  from a have m2: "num_val (multi_vets_est (estimate (Fin v) (Fin f) (Fin q2)))
                 = Fin (max (round_to_double (v - spec_solo_facilities f q2)) 0)"
    by (intro multi_vets_value) auto
  from a have "round_to_double (v - spec_solo_facilities f q2)
             \<le> round_to_double (v - spec_solo_facilities f q1)"
    by (intro weak_decrease) auto
  then show "\<not> num_gt (multi_vets_est (estimate (Fin v) (Fin f) (Fin q2)))
                   (multi_vets_est (estimate (Fin v) (Fin f) (Fin q1)))"
    by (simp add: num_gt_def m1 m2)
next
  assume a: "0 \<le> v \<and> v \<le> 2 ^ 30 \<and> 1 \<le> f \<and> f \<le> 2 ^ 30 \<and> 0 \<le> p1 \<and> p1 < p2 \<and> p2 \<le> 100 \<and>
          num_gt (multi_vets_est (estimate (Fin v) (Fin f) (int_to_float p1))) (PyInt 0)"
  have i1: "int_to_float p1 = Fin (of_int p1)" using a by (intro int_to_float_small) auto
  have i2: "int_to_float p2 = Fin (of_int p2)" using a by (intro int_to_float_small) auto
  have vm: "v \<le> max_double" and fm: "f \<le> max_double" and f0: "0 \<le> f"
    using a two_30_le_max_double by auto
  have q1: "0 \<le> rat_of_int p1" "rat_of_int p1 \<le> 100" using a by auto
  have q2: "0 \<le> rat_of_int p2" "rat_of_int p2 \<le> 100" using a by auto
  have m1: "num_val (multi_vets_est (estimate (Fin v) (Fin f) (Fin (of_int p1))))
                 = Fin (max (round_to_double (v - spec_solo_facilities f (of_int p1))) 0)"
    using a vm f0 fm q1 by (intro multi_vets_value) auto
  have m2: "num_val (multi_vets_est (estimate (Fin v) (Fin f) (Fin (of_int p2))))
                 = Fin (max (round_to_double (v - spec_solo_facilities f (of_int p2))) 0)"
    using a vm f0 fm q2 by (intro multi_vets_value) auto
  have lt: "round_to_double (v - spec_solo_facilities f (of_int p2))
          < round_to_double (v - spec_solo_facilities f (of_int p1))"
    using a by (intro strict_decrease) auto
  from a have "0 < max (round_to_double (v - spec_solo_facilities f (of_int p1))) 0"
    by (simp add: num_gt_def i1 m1)
  with lt show "num_gt (multi_vets_est (estimate (Fin v) (Fin f) (int_to_float p1)))
                  (multi_vets_est (estimate (Fin v) (Fin f) (int_to_float p2)))"
    by (simp add: num_gt_def i1 i2 m1 m2 max_def split: if_splits)
qed

lemma estimate_quebec_0:
  "estimate (Fin 3212) (Fin 942) (Fin 0) =
     \<lparr>solo_facilities = Fin 0, multi_facilities = Fin 942,
      solo_vets_est = Fin 0, multi_vets_est = PyFloat (Fin 3212)\<rparr>"
  by (simp add: estimate_def Let_def float_lit_100 float_lit_1 float_sub_def py_max_def num_gt_def
      to_double_numeral)

theorem multi_vets_decreasing_witness:
  "(0::rat) \<le> 3212 \<and> (3212::rat) \<le> 2 ^ 30 \<and> (1::rat) \<le> 942 \<and> (942::rat) \<le> 2 ^ 30 \<and>
   (0::int) \<le> 0 \<and> (0::int) < 20 \<and> (20::int) \<le> 100 \<and>
   num_gt (multi_vets_est (estimate (Fin 3212) (Fin 942) (int_to_float 0))) (PyInt 0) \<and>
   num_gt (multi_vets_est (estimate (Fin 3212) (Fin 942) (int_to_float 0)))
          (multi_vets_est (estimate (Fin 3212) (Fin 942) (int_to_float 20))) \<and>
   \<not> num_gt (multi_vets_est (estimate (Fin 3212) (Fin 942) (Fin 20)))
            (multi_vets_est (estimate (Fin 3212) (Fin 942) (Fin 0)))"
proof -
  have h: "num_gt (multi_vets_est (estimate (Fin 3212) (Fin 942) (int_to_float 0))) (PyInt 0)"
    by (simp add: int_to_float_small estimate_quebec_0 num_gt_def)
  have m: "(3212::rat) \<le> max_double" "(942::rat) \<le> max_double"
    using max_double_ge by simp_all
  from multi_vets_decreasing[of 3212 942 0 20 0 20] h m show ?thesis by simp
qed

lemma canada_1: "to_double (7639 / 2164) = Fin (7948936588143073 / 2251799813685248)"
  by (rule to_double_certI[where k = 51 and m = "7948936588143073"]) (simp_all add: round_half_even_eval)

lemma canada_2: "to_double (84734 / 5) = Fin (4658300913398579 / 274877906944)"
  by (rule to_double_certI[where k = 38 and m = "4658300913398579"]) (simp_all add: round_half_even_eval)

lemma canada_3: "to_double (95493 / 10) = Fin (2624891596780339 / 274877906944)"
  by (rule to_double_certI[where k = 39 and m = "5249783193560678"]) (simp_all add: round_half_even_eval)

lemma by_vets_order:
  "sort_values by_vets False build_df_ca
     = map ((!) build_df_ca) [0, 1, 3, 2, 4, 5, 6, 8, 7, 9, 10, 11]"
  by (simp add: build_df_ca_rows sort_values_def sort_by_def by_vets_def)

lemma by_facilities_order:
  "sort_values by_facilities False build_df_ca
     = map ((!) build_df_ca) [0, 1, 3, 2, 5, 6, 4, 7, 9, 8, 10, 11]"
  by (simp add: build_df_ca_rows sort_values_def sort_by_def by_facilities_def)

lemma by_ratio_order:
  "sort_values Ratio False build_df_ca
     = map ((!) build_df_ca) [8, 4, 9, 2, 1, 5, 3, 0, 6, 10, 7, 11]"
  by (simp add: build_df_ca_rows sort_values_def sort_by_def)

lemma by_effectif_order:
  "sort_values by_effectif False build_qc_practice_main
     = map ((!) build_qc_practice_main) [0, 1, 2, 3, 5, 4, 6, 8, 9, 10, 7]"
  by (simp add: build_qc_practice_main_rows sort_values_def sort_by_def by_effectif_def)

lemma tab_ca_store: "snd (tab_ca s) = s"
  by (simp add: tab_ca_def split: sum.split)

lemma tab_qc_store: "snd (tab_qc s) = s"
  by (simp add: tab_qc_def split: sum.split)

lemma tab_scen_store: "snd (tab_scen juris solo_share s) = s"
  by (simp add: tab_scen_def Let_def split: list.split sum.split)

lemma tab_sources_store: "snd (tab_sources s) = s"
  by (simp add: tab_sources_def)

lemma then_panel_store:
  assumes "\<And>s. snd (p s) = s" "\<And>s. snd (q s) = s"
  shows "snd (then_panel p q s) = s"
proof -
  obtain a s' where p: "p s = (a, s')" by (cases "p s")
  with assms(1)[of s] have s': "s' = s" by simp
  obtain b s'' where q: "q s = (b, s'')" by (cases "q s")
  with assms(2)[of s] have s'': "s'' = s" by simp
  show ?thesis
    by (simp add: then_panel_def p q s' s'' split: sum.split)
qed

lemma render_store: "snd (render juris solo_share s) = s"
  unfolding render_def
  by (intro then_panel_store tab_ca_store tab_qc_store tab_scen_store tab_sources_store)

lemma tab_scen_quebec_20:
  "tab_scen Quebec_QC 20 module_state =
     (Inr [Metric ''3 212'', Metric ''942'', Metric ''3.41'',
           Metric ''188'', Metric ''188'', Metric ''3024''], module_state)"
  by (simp add: tab_scen_def Let_def build_df_ca_rows Quebec_QC_def int_to_float_small
      metric_int_def scenario_metrics_def estimate_quebec_20 fmt_eval)

lemma tab_ca_module_state:
  "tab_ca module_state =
     (Inr [Metric ''16 317'', Metric ''15 278'', Metric ''4 328'', Metric ''3.53'',
           Metric ''16 946.8'', Metric ''9 549.3'', Metric ''81 920'', Metric ''1 828.6'',
           bar_ca by_vets (map ((!) build_df_ca) [0, 1, 3, 2, 4, 5, 6, 8, 7, 9, 10, 11]),
           bar_ca by_facilities (map ((!) build_df_ca) [0, 1, 3, 2, 5, 6, 4, 7, 9, 8, 10, 11]),
           bar_ca Ratio (map ((!) build_df_ca) [8, 4, 9, 2, 1, 5, 3, 0, 6, 10, 7, 11]),
           Dataframe_ca (map ((!) build_df_ca) [0, 1, 3, 2, 4, 5, 6, 8, 7, 9, 10, 11])],
      module_state)"
  by (simp add: tab_ca_def int_truediv_def CAN_REGISTERED_VETS_2024_def CAN_ACTIVE_VETS_2023_24_def
      CAN_ACCREDITED_FACILITIES_2023_24_def CAN_OUTPUT_MCAD_def CAN_GDP_MCAD_def
      CAN_EMPLOYMENT_FTE_def float_lit_def metric_int_def tax_total_metric_def tax_sum_value
      by_vets_order by_facilities_order by_ratio_order fmt_eval canada_1 canada_2 canada_3)

lemma tab_qc_module_state:
  "tab_qc module_state =
     (Inr [Metric ''2 804'', Metric ''2 381'', Metric ''2 025'', Metric ''779'',
           Plotly_chart (map (\<lambda>r. (Pratique_principale r, by_effectif r))
             (map ((!) build_qc_practice_main) [0, 1, 2, 3, 5, 4, 6, 8, 9, 10, 7])),
           Markdown [''1674'', ''305'', ''172''],
           Dataframe_qc (map ((!) build_qc_practice_main) [0, 1, 2, 3, 5, 4, 6, 8, 9, 10, 7]),
           Markdown [''405'', ''352'', ''20'', ''10'', ''9'', ''2'']],
      module_state)"
proof -
  have e: "effectif_of build_qc_practice_main ''Animaux de compagnie'' = Inr 1674"
    "effectif_of build_qc_practice_main ''Grands animaux'' = Inr 305"
    "effectif_of build_qc_practice_main Sante_publique = Inr 172"
    by (simp_all add: effectif_of_def build_qc_practice_main_rows Sante_publique_def)
  show ?thesis
    by (simp add: tab_qc_def e by_effectif_order metric_int_def QC_OMVQ_MEMBERS_TOTAL_def
        QC_OMVQ_ACTIVE_STATUS_N_def QC_OMVQ_FEMALE_N_def QC_OMVQ_MALE_N_def
        QC_COMPANION_MONTEREGIE_N_def QC_COMPANION_MONTREAL_N_def QC_COMPANION_ABITIBI_N_def
        QC_COMPANION_GASPESIE_N_def QC_COMPANION_COTE_NORD_N_def QC_COMPANION_NORD_DU_QC_N_def
        fmt_eval)
qed

text \<open>The whole run for the default selection and slider value: 26 elements, no exception.\<close>

lemma render_quebec_20:
  "\<exists>a b c. tab_ca module_state = (Inr a, module_state) \<and>
           tab_qc module_state = (Inr b, module_state) \<and>
           tab_scen Quebec_QC 20 module_state = (Inr c, module_state) \<and>
           render Quebec_QC 20 module_state = (Inr (a @ b @ c), module_state) \<and>
           length (a @ b @ c) = 26"
  by (simp add: render_def then_panel_def tab_ca_module_state tab_qc_module_state
      tab_scen_quebec_20 tab_sources_def)

lemma find_filter:
  "filter P xs = r # rest \<Longrightarrow> find P xs = Some r"
  by (induction xs) (auto split: if_splits)

text \<open>
  C9: every panel, and the whole run, returns the store it was given: \<^verbatim>\<open>df_ca\<close> and
  \<^verbatim>\<open>qc_practice_main\<close> hold the same rows in the same order afterwards. The descending sorts
  are new tables: on the module's data each of them differs from the table it sorts.
\<close>

theorem panels_preserve_store:
  "snd (tab_ca s) = s \<and> snd (tab_qc s) = s \<and> snd (tab_scen juris solo_share s) = s \<and>
   snd (tab_sources s) = s \<and> snd (render juris solo_share s) = s \<and>
   sort_values by_vets False (df_ca module_state) \<noteq> df_ca module_state \<and>
   sort_values by_facilities False (df_ca module_state) \<noteq> df_ca module_state \<and>
   sort_values Ratio False (df_ca module_state) \<noteq> df_ca module_state \<and>
   sort_values by_effectif False (qc_practice_main module_state) \<noteq> qc_practice_main module_state"
proof -
  have "sort_values by_vets False build_df_ca \<noteq> build_df_ca"
    "sort_values by_facilities False build_df_ca \<noteq> build_df_ca"
    "sort_values Ratio False build_df_ca \<noteq> build_df_ca"
    unfolding by_vets_order by_facilities_order by_ratio_order
    by (simp_all add: build_df_ca_rows)
  moreover have "sort_values by_effectif False build_qc_practice_main \<noteq> build_qc_practice_main"
    unfolding by_effectif_order by (simp add: build_qc_practice_main_rows)
  ultimately show ?thesis
    by (simp add: tab_ca_store tab_qc_store tab_scen_store tab_sources_store render_store)
qed

text \<open>
  C8: a second run on the store the first run left produces the same elements and the same
  store, for every selection and slider value; and the three scenario metrics are
  \<open>scenario_metrics\<close> of the estimator applied to the selected row's two counts and the slider
  value, so they depend on nothing else.
\<close>

theorem render_idempotent:
  "render juris solo_share (snd (render juris solo_share s)) = render juris solo_share s \<and>
   (fst (tab_scen juris solo_share s) = Inr els \<longrightarrow>
      (\<exists>row. find (\<lambda>r. Juridiction r = juris) (df_ca s) = Some row \<and>
             drop 3 els = scenario_metrics
               (estimate (int_to_float (Veterinaires_actifs row))
                         (num_to_float (Etablissements_accredites row))
                         (int_to_float solo_share))))"
proof (intro conjI impI)
  show "render juris solo_share (snd (render juris solo_share s)) = render juris solo_share s"
    by (simp add: render_store)
next
  assume a: "fst (tab_scen juris solo_share s) = Inr els"
  show "\<exists>row. find (\<lambda>r. Juridiction r = juris) (df_ca s) = Some row \<and>
             drop 3 els = scenario_metrics
               (estimate (int_to_float (Veterinaires_actifs row))
                         (num_to_float (Etablissements_accredites row))
                         (int_to_float solo_share))"
  proof (cases "filter (\<lambda>r. Juridiction r = juris) (df_ca s)")
    case Nil
    with a show ?thesis by (simp add: tab_scen_def split: if_splits)
  next
    case (Cons row rest)
    from find_filter[OF Cons] have "find (\<lambda>r. Juridiction r = juris) (df_ca s) = Some row" .
    moreover from a Cons have "drop 3 els = scenario_metrics
               (estimate (int_to_float (Veterinaires_actifs row))
                         (num_to_float (Etablissements_accredites row))
                         (int_to_float solo_share))"
      by (auto simp: tab_scen_def Let_def split: if_splits sum.splits)
    ultimately show ?thesis by blast
  qed
qed

theorem render_idempotent_witness:
  "fst (tab_scen Quebec_QC 20 module_state)
     = Inr [Metric ''3 212'', Metric ''942'', Metric ''3.41'',
            Metric ''188'', Metric ''188'', Metric ''3024''] \<and>
   (\<exists>row. find (\<lambda>r. Juridiction r = Quebec_QC) (df_ca module_state) = Some row \<and>
          [Metric ''188'', Metric ''188'', Metric ''3024''] = scenario_metrics
            (estimate (int_to_float (Veterinaires_actifs row))
                      (num_to_float (Etablissements_accredites row)) (int_to_float 20))) \<and>
   render Quebec_QC 20 (snd (render Quebec_QC 20 module_state)) = render Quebec_QC 20 module_state"
proof -
  have t: "fst (tab_scen Quebec_QC 20 module_state)
     = Inr [Metric ''3 212'', Metric ''942'', Metric ''3.41'',
            Metric ''188'', Metric ''188'', Metric ''3024'']"
    by (simp add: tab_scen_quebec_20)
  from render_idempotent[of Quebec_QC 20 module_state
      "[Metric ''3 212'', Metric ''942'', Metric ''3.41'',
        Metric ''188'', Metric ''188'', Metric ''3024'']"] t
  show ?thesis by simp
qed

end
